theory Spec2Isabelle
  imports Complex_Main "HOL-Library.AList" "HOL-Library.Product_Lexorder"
begin

section \<open>Errors\<close>

text \<open>
  Every exception the Python of \<^verbatim>\<open>alphamind/model/data_preparing.py\<close> can raise is a
  value. \<open>ValueError\<close> carries its message; \<open>PeriodError\<close> stands for whatever the period
  parser raises on a string it cannot read; \<open>External\<close> is a failure raised inside a
  collaborator (the engine, the calendar, the cross-sectional transform).
\<close>

datatype error =
    ValueError string
  | IndexError
  | TypeError
  | KeyError string
  | PeriodError
  | External string

section \<open>Frequency parser\<close>

text \<open>
  Modelled from the spec: the unit enumeration \<^verbatim>\<open>TimeUnits\<close> of the period library is not
  part of the sources. The source names \<open>BDays\<close>, \<open>Days\<close>, \<open>Weeks\<close> and \<open>Months\<close>;
  \<open>Years\<close> is the unit of the library that the source does not name.
\<close>

datatype TimeUnits = BDays | Days | Weeks | Months | Years

record period =
  p_units :: TimeUnits
  p_length :: int

definition units_of_char :: "char \<Rightarrow> TimeUnits option" where
  "units_of_char c =
     (if c = CHR ''b'' then Some BDays
      else if c = CHR ''d'' then Some Days
      else if c = CHR ''w'' then Some Weeks
      else if c = CHR ''m'' then Some Months
      else if c = CHR ''y'' then Some Years
      else None)"

definition digit_of_char :: "char \<Rightarrow> nat option" where
  "digit_of_char c =
     (let n = (of_char c :: nat) in if 48 \<le> n \<and> n \<le> 57 then Some (n - 48) else None)"

fun count_of_digits :: "nat \<Rightarrow> string \<Rightarrow> nat option" where
  "count_of_digits acc [] = Some acc"
| "count_of_digits acc (c # cs) =
     (case digit_of_char c of
        None \<Rightarrow> None
      | Some d \<Rightarrow> count_of_digits (10 * acc + d) cs)"

text \<open>
  Modelled from the spec: the class \<^verbatim>\<open>Period\<close> of the period library is not part of the
  sources. The spec describes its input as a string of the form \<^verbatim>\<open><n><unit>\<close>, a count
  followed by a unit (\<^verbatim>\<open>"1b"\<close>, \<^verbatim>\<open>"2w"\<close>, \<^verbatim>\<open>"3m"\<close>): a decimal count, then one unit
  letter. Any other string is refused.
\<close>

definition Period :: "string \<Rightarrow> error + period" where
  "Period s =
     (if length s < 2 then Inl PeriodError
      else (case (count_of_digits 0 (butlast s), units_of_char (last s)) of
              (Some n, Some u) \<Rightarrow> Inr \<lparr>p_units = u, p_length = int n\<rparr>
            | _ \<Rightarrow> Inl PeriodError))"

text \<open>
  \<^verbatim>\<open>_map_horizon\<close>: the horizon of a frequency. The exception of the period parser
  propagates; a unit that is none of the four raises \<^verbatim>\<open>ValueError\<close>.
\<close>

definition map_horizon :: "string \<Rightarrow> error + int" where
  "map_horizon frequency =
     (case Period frequency of
        Inl e \<Rightarrow> Inl e
      | Inr parsed_period \<Rightarrow>
          (let unit = p_units parsed_period;
               length = p_length parsed_period
           in if unit = BDays \<or> unit = Days then Inr (length - 1)
              else if unit = Weeks then Inr (5 * length - 1)
              else if unit = Months then Inr (22 * length - 1)
              else Inl (ValueError (frequency @ '' is an unrecognized frequency rule''))))"

text \<open>
  The frequency string built from a count and a unit, as the spec writes it
  (\<^verbatim>\<open><n><unit>\<close>): the decimal digits of the count, then the unit's letter.
\<close>

fun digits_of :: "nat \<Rightarrow> string" where
  "digits_of n =
     (if n < 10 then [char_of (48 + n)]
      else digits_of (n div 10) @ [char_of (48 + n mod 10)])"

declare digits_of.simps [simp del]

definition char_of_units :: "TimeUnits \<Rightarrow> char" where
  "char_of_units u =
     (case u of BDays \<Rightarrow> CHR ''b'' | Days \<Rightarrow> CHR ''d'' | Weeks \<Rightarrow> CHR ''w''
      | Months \<Rightarrow> CHR ''m'' | Years \<Rightarrow> CHR ''y'')"

definition frequency_of :: "nat \<Rightarrow> TimeUnits \<Rightarrow> string" where
  "frequency_of n u = digits_of n @ [char_of_units u]"

text \<open>
  Sequencing with exceptions: the first exception ends the computation and is the result.
\<close>

definition and_then :: "error + 'a \<Rightarrow> ('a \<Rightarrow> error + 'b) \<Rightarrow> error + 'b" where
  "and_then r f = (case r of Inl e \<Rightarrow> Inl e | Inr v \<Rightarrow> f v)"

section \<open>Arrays and dictionaries\<close>

text \<open>
  A one-dimensional array, or the rows of a two-dimensional one, is a list. A slice
  \<^verbatim>\<open>xs[:stop]\<close> never raises: a negative \<open>stop\<close> counts from the end, and both ends
  are clamped (so \<^verbatim>\<open>xs[:-0]\<close> is \<^verbatim>\<open>xs[:0]\<close>, the empty array).
\<close>

definition slice_to :: "'a list \<Rightarrow> int \<Rightarrow> 'a list" where
  "slice_to xs stop =
     (if stop < 0 then take (nat (int (length xs) + stop)) xs else take (nat stop) xs)"

text \<open>\<^verbatim>\<open>xs[i]\<close>: a negative index counts from the end; out of range raises.\<close>

definition item :: "'a list \<Rightarrow> int \<Rightarrow> error + 'a" where
  "item xs i =
     (if 0 \<le> i \<and> i < int (length xs) then Inr (xs ! nat i)
      else if i < 0 \<and> 0 \<le> int (length xs) + i then Inr (xs ! nat (int (length xs) + i))
      else Inl IndexError)"

text \<open>
  \<^verbatim>\<open>xs[mask]\<close> with a boolean array: the rows at the positions where the mask holds; a
  mask of another length than the array raises \<^verbatim>\<open>IndexError\<close>.
\<close>

definition mask_index :: "'a list \<Rightarrow> bool list \<Rightarrow> error + 'a list" where
  "mask_index xs msk =
     (if length msk \<noteq> length xs then Inl IndexError
      else Inr (map fst (filter snd (zip xs msk))))"

text \<open>
  \<^verbatim>\<open>enumerate(xs)\<close> is \<^term>\<open>List.enumerate 0 xs\<close>, the items paired with their positions.
\<close>

text \<open>
  A dictionary is an association list in insertion order; \<^verbatim>\<open>d[k] = v\<close> is
  \<^const>\<open>AList.update\<close>, which replaces the value of a key that is present and appends a
  new key at the end.
\<close>

section \<open>Walk-forward batching\<close>

record ('d, 'a) buckets =
  train_x_buckets :: "('d \<times> 'a list) list"
  train_y_buckets :: "('d \<times> 'a list) list"
  predict_x_buckets :: "('d \<times> 'a list) list"
  predict_y_buckets :: "('d \<times> 'a list) list"

definition no_buckets :: "('d, 'a) buckets" where
  "no_buckets = \<lparr>train_x_buckets = [], train_y_buckets = [],
                 predict_x_buckets = [], predict_y_buckets = []\<rparr>"

text \<open>
  \<^verbatim>\<open>risk_exp[index] if risk_exp is not None else None\<close>: the risk rows of a window.
\<close>

definition risk_rows :: "'r list option \<Rightarrow> bool list \<Rightarrow> error + 'r list option" where
  "risk_rows risk_exp index =
     (case risk_exp of
        Some r \<Rightarrow> and_then (mask_index r index) (\<lambda>v. Inr (Some v))
      | None \<Rightarrow> Inr None)"

text \<open>
  The body of the loop of \<^verbatim>\<open>batch_processing\<close>, for the window that starts at
  \<open>groups[i] = start\<close>. The cross-sectional transform \<^verbatim>\<open>factor_processing\<close> is not
  part of the sources: it is the parameter \<open>factor_processing\<close>, called with the raw
  rows, \<open>pre_process\<close>, the risk rows and \<open>post_process\<close>, and it may raise.
\<close>

definition window_body ::
  "('a list \<Rightarrow> 'p \<Rightarrow> 'r list option \<Rightarrow> 'q \<Rightarrow> error + 'a list) \<Rightarrow>
   'a list \<Rightarrow> 'a list \<Rightarrow> ('d::linorder) list \<Rightarrow> 'd list \<Rightarrow> int \<Rightarrow> 'r list option \<Rightarrow> 'p \<Rightarrow> 'q \<Rightarrow>
   nat \<Rightarrow> 'd \<Rightarrow> ('d, 'a) buckets \<Rightarrow> error + ('d, 'a) buckets" where
  "window_body factor_processing x_values y_values groups group_label batch risk_exp
       pre_process post_process i start b =
   and_then (item groups (int i + batch)) (\<lambda>end.
   let index = map (\<lambda>l. start \<le> l \<and> l < end) group_label in
   and_then (mask_index x_values index) (\<lambda>this_raw_x.
   and_then (mask_index y_values index) (\<lambda>this_raw_y.
   and_then (risk_rows risk_exp index) (\<lambda>this_risk_exp.
   and_then (factor_processing this_raw_x pre_process this_risk_exp post_process) (\<lambda>train_x.
   and_then (factor_processing this_raw_y pre_process this_risk_exp post_process) (\<lambda>train_y.
   let index = map (\<lambda>l. start < l \<and> l \<le> end) group_label in
   and_then (mask_index group_label index) (\<lambda>sub_dates.
   and_then (mask_index x_values index) (\<lambda>this_raw_x.
   and_then (risk_rows risk_exp index) (\<lambda>this_risk_exp.
   and_then (factor_processing this_raw_x pre_process this_risk_exp post_process) (\<lambda>ne_x.
   and_then (mask_index ne_x (map (\<lambda>d. d = end) sub_dates)) (\<lambda>predict_x.
   and_then (mask_index y_values index) (\<lambda>this_raw_y.
   and_then
     (if length this_raw_y > 0 then
        and_then (factor_processing this_raw_y pre_process this_risk_exp post_process) (\<lambda>ne_y.
        and_then (mask_index ne_y (map (\<lambda>d. d = end) sub_dates)) (\<lambda>predict_y.
        Inr (AList.update end predict_y (predict_y_buckets b))))
      else Inr (predict_y_buckets b)) (\<lambda>predict_y_buckets'.
   Inr \<lparr>train_x_buckets = AList.update end train_x (train_x_buckets b),
        train_y_buckets = AList.update end train_y (train_y_buckets b),
        predict_x_buckets = AList.update end predict_x (predict_x_buckets b),
        predict_y_buckets = predict_y_buckets'\<rparr>)))))))))))))"

text \<open>The \<^verbatim>\<open>for\<close> loop: the body on each enumerated item, stopping at the first exception.\<close>

fun for_each ::
  "(nat \<Rightarrow> 'd \<Rightarrow> 's \<Rightarrow> error + 's) \<Rightarrow> (nat \<times> 'd) list \<Rightarrow> 's \<Rightarrow> error + 's" where
  "for_each body [] s = Inr s"
| "for_each body ((i, start) # rest) s =
     (case body i start s of Inl e \<Rightarrow> Inl e | Inr s' \<Rightarrow> for_each body rest s')"

definition batch_processing ::
  "('a list \<Rightarrow> 'p \<Rightarrow> 'r list option \<Rightarrow> 'q \<Rightarrow> error + 'a list) \<Rightarrow>
   'a list \<Rightarrow> 'a list \<Rightarrow> ('d::linorder) list \<Rightarrow> 'd list \<Rightarrow> int \<Rightarrow> 'r list option \<Rightarrow> 'p \<Rightarrow> 'q \<Rightarrow>
   error + ('d, 'a) buckets" where
  "batch_processing factor_processing x_values y_values groups group_label batch risk_exp
       pre_process post_process =
     for_each
       (window_body factor_processing x_values y_values groups group_label batch risk_exp
          pre_process post_process)
       (List.enumerate 0 (slice_to groups (- batch)))
       no_buckets"

text \<open>
  The rows of \<open>xs\<close> whose label satisfies \<open>P\<close>, where \<open>labels\<close> runs parallel to \<open>xs\<close>:
  the vocabulary of the spec for a window.
\<close>

definition rows_in :: "('d \<Rightarrow> bool) \<Rightarrow> 'd list \<Rightarrow> 'a list \<Rightarrow> 'a list" where
  "rows_in P labels xs = map snd (filter (\<lambda>(l, x). P l) (zip labels xs))"

text \<open>
  The two windows of the spec for a start and an end date: the train window
  \<open>[start, end)\<close> and the predict window \<open>(start, end]\<close>.
\<close>

definition train_window :: "('d::linorder) \<Rightarrow> 'd \<Rightarrow> 'd \<Rightarrow> bool" where
  "train_window start end l \<longleftrightarrow> start \<le> l \<and> l < end"

definition predict_window :: "('d::linorder) \<Rightarrow> 'd \<Rightarrow> 'd \<Rightarrow> bool" where
  "predict_window start end l \<longleftrightarrow> start < l \<and> l \<le> end"

text \<open>
  A transform with no pre-processing, risk model or post-processing returns its input;
  it is the transform of the worked examples.
\<close>

definition raw_processing :: "'a list \<Rightarrow> unit \<Rightarrow> 'r list option \<Rightarrow> unit \<Rightarrow> error + 'a list" where
  "raw_processing raw pre_process risk_factors post_process = Inr raw"

section \<open>Frames\<close>

text \<open>
  A data frame of this program always carries the two key columns \<^verbatim>\<open>trade_date\<close> and
  \<^verbatim>\<open>code\<close>: every merge is on them and every selection that builds a frame lists
  them. A row is its key and its other cells by column name; a frame is its other column
  names and its rows, in order. A date is a day number. A cell is a missing value
  (\<open>NaN\<close>), a number, a string, a boolean or a date.
\<close>

type_synonym date = int

type_synonym key = "date \<times> int"

datatype val = NaN | Num real | Str string | Flag bool | Day date

type_synonym row = "key \<times> (string \<times> val) list"

record frame =
  columns :: "string list"
  rows :: "row list"

definition key_columns :: "string list" where
  "key_columns = [''trade_date'', ''code'']"

definition has_column :: "frame \<Rightarrow> string \<Rightarrow> bool" where
  "has_column df name \<longleftrightarrow> name \<in> set key_columns \<or> name \<in> set (columns df)"

text \<open>The cell of a row in a column; a cell the row does not hold is missing.\<close>

definition cell :: "row \<Rightarrow> string \<Rightarrow> val" where
  "cell r name =
     (if name = ''trade_date'' then Day (fst (fst r))
      else if name = ''code'' then Num (of_int (snd (fst r)))
      else (case map_of (snd r) name of Some v \<Rightarrow> v | None \<Rightarrow> NaN))"

text \<open>
  \<^verbatim>\<open>pd.merge(left, right, on=['trade_date', 'code'], how=...)\<close>: for each row of the
  left frame, in order, one row for each row of the right frame with the same key; a
  left join keeps an unmatched left row and fills the right columns with missing values.
  A column name that both frames have gets the suffix \<^verbatim>\<open>_x\<close> on the left and \<^verbatim>\<open>_y\<close>
  on the right.
\<close>

datatype how = Inner | Left

definition left_name :: "frame \<Rightarrow> string \<Rightarrow> string" where
  "left_name right c = (if c \<in> set (columns right) then c @ ''_x'' else c)"

definition right_name :: "frame \<Rightarrow> string \<Rightarrow> string" where
  "right_name left c = (if c \<in> set (columns left) then c @ ''_y'' else c)"

definition merge :: "frame \<Rightarrow> frame \<Rightarrow> how \<Rightarrow> frame" where
  "merge left right how =
     \<lparr>columns = map (left_name right) (columns left) @ map (right_name left) (columns right),
      rows = concat (map (\<lambda>(k, l).
               let matches = filter (\<lambda>(k', r). k' = k) (rows right) in
               if matches = [] \<and> how = Left
               then [(k, map (apfst (left_name right)) l
                         @ map (\<lambda>c. (right_name left c, NaN)) (columns right))]
               else map (\<lambda>(k', r). (k, map (apfst (left_name right)) l
                                        @ map (apfst (right_name left)) r)) matches)
             (rows left))\<rparr>"

text \<open>\<^verbatim>\<open>df.dropna()\<close>: the rows without a missing value.\<close>

definition dropna :: "frame \<Rightarrow> frame" where
  "dropna df = df\<lparr>rows := filter (\<lambda>(k, r). list_all (\<lambda>(n, v). v \<noteq> NaN) r) (rows df)\<rparr>"

text \<open>\<^verbatim>\<open>df.sort_values(['trade_date', 'code'])\<close>: the rows in the order of their keys.\<close>

definition sort_values :: "frame \<Rightarrow> frame" where
  "sort_values df = df\<lparr>rows := sort_key fst (rows df)\<rparr>"

text \<open>
  \<^verbatim>\<open>df[names]\<close> with a list of names that holds the two key columns: the frame of these
  columns; a name that is no column raises \<^verbatim>\<open>KeyError\<close>.
\<close>

definition select :: "frame \<Rightarrow> string list \<Rightarrow> error + frame" where
  "select df names =
     (case filter (\<lambda>n. \<not> has_column df n) names of
        n # _ \<Rightarrow> Inl (KeyError n)
      | [] \<Rightarrow>
          (let others = filter (\<lambda>n. n \<notin> set key_columns) names
           in Inr \<lparr>columns = others,
                   rows = map (\<lambda>r. (fst r, map (\<lambda>n. (n, cell r n)) others)) (rows df)\<rparr>))"

text \<open>\<^verbatim>\<open>df[name]\<close>: the cells of a column, in the order of the rows.\<close>

definition series :: "frame \<Rightarrow> string \<Rightarrow> error + val list" where
  "series df name =
     (if has_column df name then Inr (map (\<lambda>r. cell r name) (rows df))
      else Inl (KeyError name))"

text \<open>
  \<^verbatim>\<open>df[name] = values\<close> with the cells by position (the frames of this program are
  indexed by position): the column is replaced, or added after the others; rows beyond
  the given cells get a missing value.
\<close>

definition assign :: "frame \<Rightarrow> string \<Rightarrow> val list \<Rightarrow> frame" where
  "assign df name vs =
     \<lparr>columns = (if name \<in> set (columns df) then columns df else columns df @ [name]),
      rows = map (\<lambda>(r, v). (fst r, AList.update name v (snd r)))
               (zip (rows df) (vs @ replicate (length (rows df) - length vs) NaN))\<rparr>"

text \<open>\<^verbatim>\<open>df[name] = df[name].fillna(v)\<close>.\<close>

definition fillna :: "frame \<Rightarrow> string \<Rightarrow> val \<Rightarrow> error + frame" where
  "fillna df name v =
     and_then (series df name) (\<lambda>cells.
     Inr (assign df name (map (\<lambda>c. if c = NaN then v else c) cells)))"

text \<open>
  \<^verbatim>\<open>df[names].values\<close>: the rows as arrays of cells; \<^verbatim>\<open>.astype(float)\<close>: a boolean becomes
  a number, a string or a date raises.
\<close>

definition values_of :: "frame \<Rightarrow> string list \<Rightarrow> error + val list list" where
  "values_of df names =
     (case filter (\<lambda>n. \<not> has_column df n) names of
        n # _ \<Rightarrow> Inl (KeyError n)
      | [] \<Rightarrow> Inr (map (\<lambda>r. map (cell r) names) (rows df)))"

definition float_of :: "val \<Rightarrow> error + val" where
  "float_of v =
     (case v of
        NaN \<Rightarrow> Inr NaN
      | Num x \<Rightarrow> Inr (Num x)
      | Flag b \<Rightarrow> Inr (Num (if b then 1 else 0))
      | Str s \<Rightarrow> Inl (ValueError (''could not convert string to float: '' @ s))
      | Day d \<Rightarrow> Inl TypeError)"

fun all_of :: "('a \<Rightarrow> error + 'b) \<Rightarrow> 'a list \<Rightarrow> error + 'b list" where
  "all_of f [] = Inr []"
| "all_of f (x # xs) =
     and_then (f x) (\<lambda>y. and_then (all_of f xs) (\<lambda>ys. Inr (y # ys)))"

definition astype_float :: "val list list \<Rightarrow> error + val list list" where
  "astype_float a = all_of (all_of float_of) a"

text \<open>
  \<^verbatim>\<open>a[:, i]\<close> of a two-dimensional array, and \<^verbatim>\<open>df.loc[:, name] = column\<close>, which raises
  when the column has another length than the frame.
\<close>

definition array_column :: "val list list option \<Rightarrow> nat \<Rightarrow> error + val list" where
  "array_column a i =
     (case a of
        None \<Rightarrow> Inl TypeError
      | Some rs \<Rightarrow>
          if list_all (\<lambda>r. i < length r) rs then Inr (map (\<lambda>r. r ! i) rs)
          else Inl IndexError)"

definition assign_array :: "frame \<Rightarrow> string \<Rightarrow> val list \<Rightarrow> error + frame" where
  "assign_array df name vs =
     (if length vs = length (rows df) then Inr (assign df name vs)
      else Inl (ValueError ''Length of values does not match length of index''))"

section \<open>Collaborators\<close>

text \<open>
  The calendar, the factor transformer, the cross-sectional transform and the database
  engine are not part of the sources: they are parameters, and each may raise. A
  transformer is represented by \<^verbatim>\<open>transformer.names\<close>, all that this program reads of
  it. The logger is left out: it does not touch the data.
\<close>

record ('f, 'p, 'q) library =
  makeSchedule :: "string \<Rightarrow> string \<Rightarrow> string \<Rightarrow> error + date list"
  advanceDateByCalendar :: "string \<Rightarrow> string \<Rightarrow> string \<Rightarrow> error + string"
  Transformer :: "'f \<Rightarrow> error + string list"
  factor_processing :: "val list list \<Rightarrow> 'p \<Rightarrow> val list list option \<Rightarrow> 'q \<Rightarrow> error + val list list"

record 'u engine =
  fetch_factor_range :: "'u \<Rightarrow> string list \<Rightarrow> date list \<Rightarrow> error + frame"
  fetch_dx_return_range :: "'u \<Rightarrow> date list \<Rightarrow> int \<Rightarrow> error + frame"
  fetch_industry_range :: "'u \<Rightarrow> date list \<Rightarrow> error + frame"
  fetch_benchmark_range :: "int \<Rightarrow> date list \<Rightarrow> error + frame"
  fetch_risk_model_range :: "'u \<Rightarrow> date list \<Rightarrow> string \<Rightarrow> error + frame"

section \<open>Panel assembly\<close>

text \<open>\<^verbatim>\<open>str(i)\<close> of an integer.\<close>

definition str_int :: "int \<Rightarrow> string" where
  "str_int i = (if i < 0 then ''-'' @ digits_of (nat (- i)) else digits_of (nat i))"

text \<open>
  \<^verbatim>\<open>prepare_data\<close>. The argument \<open>factors\<close> is a transformer (\<open>Inl\<close>) or the factors to
  build one from (\<open>Inr\<close>).
\<close>

definition prepare_data ::
  "('f, 'p, 'q) library \<Rightarrow> 'u engine \<Rightarrow> string list + 'f \<Rightarrow> string \<Rightarrow> string \<Rightarrow> string \<Rightarrow>
   'u \<Rightarrow> int \<Rightarrow> int \<Rightarrow> error + (date list \<times> frame \<times> frame)" where
  "prepare_data lib engine factors start_date end_date frequency universe benchmark warm_start =
   and_then
     (if warm_start > 0
      then advanceDateByCalendar lib ''china.sse'' start_date (str_int (- warm_start) @ ''b'')
      else Inr start_date) (\<lambda>start_date.
   and_then (makeSchedule lib start_date end_date frequency) (\<lambda>dates.
   and_then (map_horizon frequency) (\<lambda>horizon.
   and_then (case factors of Inl t \<Rightarrow> Inr t | Inr fs \<Rightarrow> Transformer lib fs) (\<lambda>transformer.
   and_then (fetch_factor_range engine universe transformer dates) (\<lambda>factor_df.
   let factor_df = sort_values factor_df in
   and_then (fetch_dx_return_range engine universe dates horizon) (\<lambda>return_df.
   and_then (fetch_industry_range engine universe dates) (\<lambda>industry_df.
   and_then (fetch_benchmark_range engine benchmark dates) (\<lambda>benchmark_df.
   let df = dropna (merge factor_df return_df Inner);
       df = merge df benchmark_df Left;
       df = merge df industry_df Inner in
   and_then (fillna df ''weight'' (Num 0)) (\<lambda>df.
   and_then (select df [''trade_date'', ''code'', ''dx'']) (\<lambda>target.
   and_then (select df ([''trade_date'', ''code'', ''weight'', ''isOpen'', ''industry_code'',
                         ''industry''] @ transformer)) (\<lambda>features.
   Inr (dates, target, features))))))))))))"

section \<open>Orchestration\<close>

record data_package =
  x_names :: "string list"
  settlement :: frame
  train_x :: "(date \<times> val list list) list"
  train_y :: "(date \<times> val list list) list"
  predict_x :: "(date \<times> val list list) list"
  predict_y :: "(date \<times> val list list) list"

text \<open>
  \<^verbatim>\<open>fetch_data_package\<close>. \<open>neutralized_risk\<close> is \<open>None\<close> or a list of names; it is truthy
  when it is a list with a name in it. The set difference of Python has no fixed order;
  here it keeps the order of \<open>neutralized_risk\<close>. The package is the dictionary \<^verbatim>\<open>ret\<close>,
  with \<^verbatim>\<open>ret['train']['x']\<close> as \<open>train_x\<close>, and so on.
\<close>

definition fetch_data_package ::
  "('f, 'p, 'q) library \<Rightarrow> 'u engine \<Rightarrow> 'f \<Rightarrow> string \<Rightarrow> string \<Rightarrow> string \<Rightarrow> 'u \<Rightarrow> int \<Rightarrow> int \<Rightarrow>
   int \<Rightarrow> string list option \<Rightarrow> string \<Rightarrow> 'p \<Rightarrow> 'q \<Rightarrow> error + data_package" where
  "fetch_data_package lib engine alpha_factors start_date end_date frequency universe benchmark
       warm_start batch neutralized_risk risk_model pre_process post_process =
   and_then (Transformer lib alpha_factors) (\<lambda>transformer.
   and_then (prepare_data lib engine (Inl transformer) start_date end_date frequency universe
               benchmark warm_start) (\<lambda>(dates, return_df, factor_df).
   and_then
     (case neutralized_risk of
        Some (n # ns) \<Rightarrow>
          and_then (fetch_risk_model_range engine universe dates risk_model) (\<lambda>risk_df.
          let used_neutralized_risk = remdups (filter (\<lambda>r. r \<notin> set transformer) (n # ns)) in
          and_then (select risk_df ([''trade_date'', ''code''] @ used_neutralized_risk)) (\<lambda>risk_df.
          let risk_df = dropna risk_df;
              train_x = merge factor_df risk_df Inner in
          and_then (select (merge return_df risk_df Inner) [''trade_date'', ''code'', ''dx''])
            (\<lambda>return_df.
          let train_y = return_df in
          and_then (and_then (values_of train_x (n # ns)) astype_float) (\<lambda>risk_exp.
          and_then (and_then (values_of train_x transformer) astype_float) (\<lambda>x_values.
          and_then (values_of train_y [''dx'']) (\<lambda>y_values.
          Inr (return_df, train_x, Some risk_exp, x_values, y_values)))))))
      | _ \<Rightarrow>
          (let risk_exp = None;
               train_x = factor_df;
               train_y = return_df in
           and_then (and_then (values_of train_x transformer) astype_float) (\<lambda>x_values.
           and_then (values_of train_y [''dx'']) (\<lambda>y_values.
           Inr (return_df, train_x, risk_exp, x_values, y_values)))))
     (\<lambda>(return_df, train_x, risk_exp, x_values, y_values).
   let date_label = map (\<lambda>r. fst (fst r)) (rows factor_df);
       dates = sort (remdups date_label) in
   and_then (series train_x ''weight'') (\<lambda>w. let return_df = assign return_df ''weight'' w in
   and_then (series train_x ''industry'') (\<lambda>w. let return_df = assign return_df ''industry'' w in
   and_then (series train_x ''industry_code'') (\<lambda>w.
     let return_df = assign return_df ''industry_code'' w in
   and_then (series train_x ''isOpen'') (\<lambda>w. let return_df = assign return_df ''isOpen'' w in
   and_then
     (case neutralized_risk of
        None \<Rightarrow> Inl TypeError
      | Some names \<Rightarrow>
          for_each (\<lambda>i name return_df.
                      and_then (array_column risk_exp i) (assign_array return_df name))
            (List.enumerate 0 names) return_df) (\<lambda>return_df.
   and_then (batch_processing (factor_processing lib) x_values y_values dates date_label batch
               risk_exp pre_process post_process) (\<lambda>b.
   Inr \<lparr>x_names = transformer, settlement = return_df,
        train_x = train_x_buckets b, train_y = train_y_buckets b,
        predict_x = predict_x_buckets b, predict_y = predict_y_buckets b\<rparr>)))))))))"

section \<open>A worked example\<close>

text \<open>
  A small world to run the program in: two dates, two instruments and one factor. The
  instrument 11 has a factor value but no forward return on date 1; the instrument 10 is
  in the benchmark on date 1 only. The transform returns its input.
\<close>

definition example_library :: "(string list, unit, unit) library" where
  "example_library =
     \<lparr>makeSchedule = (\<lambda>start_date end_date frequency. Inr [1, 2]),
      advanceDateByCalendar = (\<lambda>calendar start_date period. Inr start_date),
      Transformer = (\<lambda>factors. Inr factors),
      factor_processing = (\<lambda>raw pre_process risk_factors post_process. Inr raw)\<rparr>"

definition example_factor_df :: frame where
  "example_factor_df =
     \<lparr>columns = [''isOpen'', ''EPS''],
      rows = [((2, 10), [(''isOpen'', Flag True), (''EPS'', Num 3)]),
              ((1, 10), [(''isOpen'', Flag True), (''EPS'', Num 1)]),
              ((1, 11), [(''isOpen'', Flag True), (''EPS'', Num 2)])]\<rparr>"

definition example_return_df :: frame where
  "example_return_df =
     \<lparr>columns = [''dx''],
      rows = [((1, 10), [(''dx'', Num 7)]), ((2, 10), [(''dx'', Num 9)])]\<rparr>"

definition example_industry_df :: frame where
  "example_industry_df =
     \<lparr>columns = [''industry_code'', ''industry''],
      rows = [((1, 10), [(''industry_code'', Num 1), (''industry'', Str ''bank'')]),
              ((1, 11), [(''industry_code'', Num 2), (''industry'', Str ''coal'')]),
              ((2, 10), [(''industry_code'', Num 1), (''industry'', Str ''bank'')])]\<rparr>"

definition example_benchmark_df :: frame where
  "example_benchmark_df =
     \<lparr>columns = [''weight''], rows = [((1, 10), [(''weight'', Num 1)])]\<rparr>"

definition example_risk_df :: frame where
  "example_risk_df =
     \<lparr>columns = [''SIZE''],
      rows = [((1, 10), [(''SIZE'', Num 4)]), ((2, 10), [(''SIZE'', Num 5)])]\<rparr>"

definition example_engine :: "unit engine" where
  "example_engine =
     \<lparr>fetch_factor_range = (\<lambda>universe factors dates. Inr example_factor_df),
      fetch_dx_return_range = (\<lambda>universe dates horizon. Inr example_return_df),
      fetch_industry_range = (\<lambda>universe dates. Inr example_industry_df),
      fetch_benchmark_range = (\<lambda>benchmark dates. Inr example_benchmark_df),
      fetch_risk_model_range = (\<lambda>universe dates risk_model. Inr example_risk_df)\<rparr>"

text \<open>
  A frame is well formed when each of its rows holds exactly the columns of the frame,
  in their order.
\<close>

definition well_formed :: "frame \<Rightarrow> bool" where
  "well_formed df \<longleftrightarrow> list_all (\<lambda>r. map fst (snd r) = columns df) (rows df)"

section \<open>Properties of the frequency parser\<close>

lemma map_horizon_parsed:
  assumes "Period f = Inr p"
  shows "map_horizon f =
     (if p_units p = BDays \<or> p_units p = Days then Inr (p_length p - 1)
      else if p_units p = Weeks then Inr (5 * p_length p - 1)
      else if p_units p = Months then Inr (22 * p_length p - 1)
      else Inl (ValueError (f @ '' is an unrecognized frequency rule'')))"
  using assms by (simp add: map_horizon_def Let_def)

lemma count_of_digits_append:
  "count_of_digits acc (xs @ ys) =
     (case count_of_digits acc xs of None \<Rightarrow> None | Some a \<Rightarrow> count_of_digits a ys)"
  by (induction xs arbitrary: acc) (auto split: option.splits)

lemma digit_of_char_of: "d < 10 \<Longrightarrow> digit_of_char (char_of (48 + d)) = Some d"
  by (simp add: digit_of_char_def Let_def)

lemma count_of_digits_of: "count_of_digits 0 (digits_of n) = Some n"
proof (induction n rule: digits_of.induct)
  case (1 n)
  show ?case
  proof (cases "n < 10")
    case True
    then show ?thesis by (subst digits_of.simps) (simp add: digit_of_char_of)
  next
    case False
    have "n mod 10 < 10" by simp
    with False 1 show ?thesis
      by (subst digits_of.simps) (simp add: count_of_digits_append digit_of_char_of)
  qed
qed

lemma digits_of_nonempty: "digits_of n \<noteq> []"
  by (subst digits_of.simps) simp

lemma units_of_char_of: "units_of_char (char_of_units u) = Some u"
  by (cases u) (simp_all add: units_of_char_def char_of_units_def)

lemma Period_frequency_of:
  "Period (frequency_of n u) = Inr \<lparr>p_units = u, p_length = int n\<rparr>"
proof -
  have "length (digits_of n) \<noteq> 0" using digits_of_nonempty by simp
  then have "\<not> length (frequency_of n u) < 2" by (simp add: frequency_of_def)
  then show ?thesis
    by (simp add: Period_def frequency_of_def count_of_digits_of units_of_char_of)
qed

text \<open>
  C5. A frequency that parses to a unit and a length has the horizon \<open>length - 1\<close> for
  business days and calendar days, \<open>5 * length - 1\<close> for weeks and \<open>22 * length - 1\<close>
  for months; the horizons of \<^verbatim>\<open>"1b"\<close>, \<^verbatim>\<open>"2w"\<close> and \<^verbatim>\<open>"3m"\<close> are 0, 9 and 65.
\<close>

theorem map_horizon_by_unit:
  "(Period f = Inr p \<longrightarrow>
      (p_units p = BDays \<or> p_units p = Days \<longrightarrow> map_horizon f = Inr (p_length p - 1)) \<and>
      (p_units p = Weeks \<longrightarrow> map_horizon f = Inr (5 * p_length p - 1)) \<and>
      (p_units p = Months \<longrightarrow> map_horizon f = Inr (22 * p_length p - 1))) \<and>
   map_horizon ''1b'' = Inr 0 \<and> map_horizon ''2w'' = Inr 9 \<and> map_horizon ''3m'' = Inr 65"
proof -
  have a: "map_horizon ''1b'' = Inr 0" by code_simp
  have b: "map_horizon ''2w'' = Inr 9" by code_simp
  have c: "map_horizon ''3m'' = Inr 65" by code_simp
  show ?thesis using a b c by (auto simp: map_horizon_parsed)
qed

theorem map_horizon_by_unit_witness:
  "Period ''4d'' = Inr \<lparr>p_units = Days, p_length = 4\<rparr> \<and> map_horizon ''4d'' = Inr 3 \<and>
   Period ''12w'' = Inr \<lparr>p_units = Weeks, p_length = 12\<rparr> \<and> map_horizon ''12w'' = Inr 59 \<and>
   Period ''1m'' = Inr \<lparr>p_units = Months, p_length = 1\<rparr> \<and> map_horizon ''1m'' = Inr 21"
proof -
  have d: "Period ''4d'' = Inr \<lparr>p_units = Days, p_length = 4\<rparr>" by code_simp
  have w: "Period ''12w'' = Inr \<lparr>p_units = Weeks, p_length = 12\<rparr>" by code_simp
  have m: "Period ''1m'' = Inr \<lparr>p_units = Months, p_length = 1\<rparr>" by code_simp
  show ?thesis
    using d w m
      map_horizon_by_unit [of "''4d''" "\<lparr>p_units = Days, p_length = 4\<rparr>"]
      map_horizon_by_unit [of "''12w''" "\<lparr>p_units = Weeks, p_length = 12\<rparr>"]
      map_horizon_by_unit [of "''1m''" "\<lparr>p_units = Months, p_length = 1\<rparr>"]
    by simp
qed

text \<open>
  C8. For a fixed recognized unit, the horizon of the frequency string built from a count
  and the unit does not decrease when the count grows.
\<close>

theorem map_horizon_monotone:
  assumes "n1 \<le> n2" and "u \<in> {BDays, Days, Weeks, Months}"
  shows "\<exists>h1 h2. map_horizon (frequency_of n1 u) = Inr h1 \<and>
                 map_horizon (frequency_of n2 u) = Inr h2 \<and> h1 \<le> h2"
  using assms by (auto simp: map_horizon_parsed [OF Period_frequency_of])

theorem map_horizon_monotone_witness:
  "(2::nat) \<le> 3 \<and> Weeks \<in> {BDays, Days, Weeks, Months} \<and>
   frequency_of 2 Weeks = ''2w'' \<and> frequency_of 3 Weeks = ''3w'' \<and>
   map_horizon ''2w'' = Inr 9 \<and> map_horizon ''3w'' = Inr 14 \<and> (9::int) \<le> 14"
proof -
  have f2: "frequency_of 2 Weeks = ''2w''" by code_simp
  have f3: "frequency_of 3 Weeks = ''3w''" by code_simp
  have h2: "map_horizon ''2w'' = Inr 9" by code_simp
  have h3: "map_horizon ''3w'' = Inr 14" by code_simp
  have "(2::nat) \<le> 3" and "Weeks \<in> {BDays, Days, Weeks, Months}" by simp_all
  from map_horizon_monotone [OF this] f2 f3 h2 h3 show ?thesis by simp
qed

section \<open>Properties of the batching loop\<close>

lemma and_then_Inr: "and_then r f = Inr y \<longleftrightarrow> (\<exists>v. r = Inr v \<and> f v = Inr y)"
  by (cases r) (simp_all add: and_then_def)

lemma masked_rows: "length labels = length xs \<Longrightarrow>
  map fst (filter snd (zip xs (map P labels))) = rows_in P labels xs"
  by (induction labels xs rule: list_induct2) (simp_all add: rows_in_def)

lemma mask_index_Inr:
  "mask_index xs (map P labels) = Inr v \<longleftrightarrow> length labels = length xs \<and> v = rows_in P labels xs"
  by (auto simp: mask_index_def masked_rows)

lemma risk_rows_Inr:
  "risk_rows R (map P labels) = Inr v \<longleftrightarrow>
     (\<forall>r. R = Some r \<longrightarrow> length labels = length r) \<and> v = map_option (rows_in P labels) R"
  by (cases R) (auto simp: risk_rows_def and_then_Inr mask_index_Inr)

lemma window_body_Inr:
  assumes "window_body fp X Y G L batch R pre post i start b = Inr b'"
  shows "\<exists>e tx ty nx.
     item G (int i + batch) = Inr e \<and> length L = length X \<and> length L = length Y \<and>
     fp (rows_in (train_window start e) L X) pre
        (map_option (rows_in (train_window start e) L) R) post = Inr tx \<and>
     fp (rows_in (train_window start e) L Y) pre
        (map_option (rows_in (train_window start e) L) R) post = Inr ty \<and>
     fp (rows_in (predict_window start e) L X) pre
        (map_option (rows_in (predict_window start e) L) R) post = Inr nx \<and>
     length nx = length (rows_in (predict_window start e) L L) \<and>
     train_x_buckets b' = AList.update e tx (train_x_buckets b) \<and>
     train_y_buckets b' = AList.update e ty (train_y_buckets b) \<and>
     predict_x_buckets b' =
       AList.update e (rows_in (\<lambda>d. d = e) (rows_in (predict_window start e) L L) nx)
         (predict_x_buckets b) \<and>
     (if rows_in (predict_window start e) L Y = [] then predict_y_buckets b' = predict_y_buckets b
      else (\<exists>ny. fp (rows_in (predict_window start e) L Y) pre
                    (map_option (rows_in (predict_window start e) L) R) post = Inr ny \<and>
                 length ny = length (rows_in (predict_window start e) L L) \<and>
                 predict_y_buckets b' =
                   AList.update e (rows_in (\<lambda>d. d = e) (rows_in (predict_window start e) L L) ny)
                     (predict_y_buckets b)))"
proof -
  have tw: "(\<lambda>l. start \<le> l \<and> l < e) = train_window start e" for e
    by (simp add: train_window_def fun_eq_iff)
  have pw: "(\<lambda>l. start < l \<and> l \<le> e) = predict_window start e" for e
    by (simp add: predict_window_def fun_eq_iff)
  from assms show ?thesis
    unfolding window_body_def Let_def and_then_Inr tw pw
    by (auto simp: mask_index_Inr risk_rows_Inr and_then_Inr split: if_splits)
qed


lemma for_each_fills:
  fixes sel :: "'s \<Rightarrow> ('k \<times> 'v) list"
  assumes step: "\<And>i s b b'. (i, s) \<in> set ws \<Longrightarrow> body i s b = Inr b' \<Longrightarrow>
            (if keep (i, s) then \<exists>v. Q (i, s) v \<and> sel b' = AList.update (key (i, s)) v (sel b)
             else sel b' = sel b)"
    and run: "for_each body ws b = Inr b'"
    and dist: "distinct (map key ws)"
    and fresh: "\<forall>w\<in>set ws. key w \<notin> fst ` set (sel b)"
  shows "map fst (sel b') = map fst (sel b) @ map key (filter keep ws) \<and>
         (\<forall>w\<in>set ws. keep w \<longrightarrow> (\<exists>v. Q w v \<and> map_of (sel b') (key w) = Some v)) \<and>
         (\<forall>k. k \<notin> key ` set (filter keep ws) \<longrightarrow> map_of (sel b') k = map_of (sel b) k)"
  using step run dist fresh
proof (induction ws arbitrary: b)
  case Nil
  then show ?case by simp
next
  case (Cons w ws)
  obtain i s where w: "w = (i, s)" by (cases w)
  from Cons.prems(2) w obtain b1 where b1: "body i s b = Inr b1"
    and rest: "for_each body ws b1 = Inr b'"
    by (auto split: sum.splits)
  have st: "if keep w then \<exists>v. Q w v \<and> sel b1 = AList.update (key w) v (sel b)
            else sel b1 = sel b"
    using Cons.prems(1) [of i s b b1] b1 w by simp
  have kw: "key w \<notin> fst ` set (sel b)" using Cons.prems(4) by simp
  have keys1: "map fst (sel b1) = map fst (sel b) @ (if keep w then [key w] else [])"
    using st kw by (auto simp: update_keys)
  have fresh1: "\<forall>w'\<in>set ws. key w' \<notin> fst ` set (sel b1)"
  proof
    fix w' assume w': "w' \<in> set ws"
    then have "key w' \<in> key ` set ws" by simp
    moreover have "key w \<notin> key ` set ws" using Cons.prems(3) by simp
    ultimately have "key w' \<noteq> key w" by metis
    moreover have "key w' \<notin> fst ` set (sel b)" using Cons.prems(4) w' by simp
    moreover have "fst ` set (sel b1) = set (map fst (sel b1))" by simp
    ultimately show "key w' \<notin> fst ` set (sel b1)"
      unfolding \<open>fst ` set (sel b1) = set (map fst (sel b1))\<close> keys1 by auto
  qed
  have IH: "map fst (sel b') = map fst (sel b1) @ map key (filter keep ws) \<and>
         (\<forall>w\<in>set ws. keep w \<longrightarrow> (\<exists>v. Q w v \<and> map_of (sel b') (key w) = Some v)) \<and>
         (\<forall>k. k \<notin> key ` set (filter keep ws) \<longrightarrow> map_of (sel b') k = map_of (sel b1) k)"
  proof (rule Cons.IH [of b1])
    show "if keep (i, s) then \<exists>v. Q (i, s) v \<and> sel b' = AList.update (key (i, s)) v (sel b)
          else sel b' = sel b"
      if "(i, s) \<in> set ws" "body i s b = Inr b'" for i s b b'
      using Cons.prems(1) [of i s b b'] that by simp
    show "for_each body ws b1 = Inr b'" by (rule rest)
    show "distinct (map key ws)" using Cons.prems(3) by simp
    show "\<forall>w\<in>set ws. key w \<notin> fst ` set (sel b1)" by (rule fresh1)
  qed
  have notin: "key w \<notin> key ` set (filter keep ws)" using Cons.prems(3) by auto
  have c1: "map fst (sel b') = map fst (sel b) @ map key (filter keep (w # ws))"
    using IH keys1 by simp
  have c2: "\<forall>w'\<in>set (w # ws). keep w' \<longrightarrow> (\<exists>v. Q w' v \<and> map_of (sel b') (key w') = Some v)"
  proof (intro ballI impI)
    fix w' assume w': "w' \<in> set (w # ws)" and k: "keep w'"
    show "\<exists>v. Q w' v \<and> map_of (sel b') (key w') = Some v"
    proof (cases "w' = w")
      case True
      with k st obtain v where v: "Q w v" "sel b1 = AList.update (key w) v (sel b)" by auto
      have "map_of (sel b') (key w) = map_of (sel b1) (key w)" using IH notin by simp
      also have "\<dots> = Some v" using v(2) by (simp add: update_conv')
      finally show ?thesis using v(1) True by auto
    next
      case False
      with w' have "w' \<in> set ws" by simp
      with IH k show ?thesis by blast
    qed
  qed
  have c3: "\<forall>k. k \<notin> key ` set (filter keep (w # ws)) \<longrightarrow> map_of (sel b') k = map_of (sel b) k"
  proof (intro allI impI)
    fix k assume k: "k \<notin> key ` set (filter keep (w # ws))"
    then have "k \<notin> key ` set (filter keep ws)" by auto
    then have "map_of (sel b') k = map_of (sel b1) k" using IH by simp
    also have "\<dots> = map_of (sel b) k"
    proof (cases "keep w")
      case True
      with k have "k \<noteq> key w" by auto
      with st True show ?thesis by (auto simp: update_conv')
    next
      case False
      with st show ?thesis by simp
    qed
    finally show "map_of (sel b') k = map_of (sel b) k" .
  qed
  from c1 c2 c3 show ?case by blast
qed

lemma slice_to_neg: "1 \<le> b \<Longrightarrow> slice_to G (- b) = take (length G - nat b) G"
  by (simp add: slice_to_def nat_diff_distrib')

lemma enumerate_take_nth:
  "m \<le> length G \<Longrightarrow> List.enumerate 0 (take m G) = map (\<lambda>i. (i, G ! i)) [0..<m]"
  by (rule nth_equalityI) (simp_all add: nth_enumerate_eq)

lemma windows_of:
  assumes "1 \<le> b"
  shows "List.enumerate 0 (slice_to G (- b)) = map (\<lambda>i. (i, G ! i)) [0..<length G - nat b]"
  using assms by (simp add: slice_to_neg enumerate_take_nth)

lemma ends_of_windows: "map (\<lambda>i. G ! (i + k)) [0..<length G - k] = drop k G"
  by (rule nth_equalityI) (simp_all add: add.commute)

lemma item_nat: "i + k < length G \<Longrightarrow> item G (int i + int k) = Inr (G ! (i + k))"
  by (simp add: item_def nat_add_distrib)


lemma window_body_at:
  assumes w: "window_body fp X Y G L batch R pre post i start b = Inr b'"
    and "1 \<le> batch" and "i + nat batch < length G"
  shows "\<exists>tx ty nx.
     length L = length X \<and> length L = length Y \<and>
     fp (rows_in (train_window start (G ! (i + nat batch))) L X) pre
        (map_option (rows_in (train_window start (G ! (i + nat batch))) L) R) post = Inr tx \<and>
     fp (rows_in (train_window start (G ! (i + nat batch))) L Y) pre
        (map_option (rows_in (train_window start (G ! (i + nat batch))) L) R) post = Inr ty \<and>
     fp (rows_in (predict_window start (G ! (i + nat batch))) L X) pre
        (map_option (rows_in (predict_window start (G ! (i + nat batch))) L) R) post = Inr nx \<and>
     length nx = length (rows_in (predict_window start (G ! (i + nat batch))) L L) \<and>
     train_x_buckets b' = AList.update (G ! (i + nat batch)) tx (train_x_buckets b) \<and>
     train_y_buckets b' = AList.update (G ! (i + nat batch)) ty (train_y_buckets b) \<and>
     predict_x_buckets b' =
       AList.update (G ! (i + nat batch))
         (rows_in (\<lambda>d. d = G ! (i + nat batch))
            (rows_in (predict_window start (G ! (i + nat batch))) L L) nx)
         (predict_x_buckets b) \<and>
     (if rows_in (predict_window start (G ! (i + nat batch))) L Y = []
      then predict_y_buckets b' = predict_y_buckets b
      else (\<exists>ny. fp (rows_in (predict_window start (G ! (i + nat batch))) L Y) pre
                    (map_option (rows_in (predict_window start (G ! (i + nat batch))) L) R) post
                  = Inr ny \<and>
                 length ny = length (rows_in (predict_window start (G ! (i + nat batch))) L L) \<and>
                 predict_y_buckets b' =
                   AList.update (G ! (i + nat batch))
                     (rows_in (\<lambda>d. d = G ! (i + nat batch))
                        (rows_in (predict_window start (G ! (i + nat batch))) L L) ny)
                     (predict_y_buckets b)))"
proof -
  have "item G (int i + batch) = Inr (G ! (i + nat batch))"
    using item_nat [of i "nat batch" G] assms(2,3) by simp
  with window_body_Inr [OF w] show ?thesis by auto
qed

lemma batch_processing_run:
  assumes "batch_processing fp X Y G L b R pre post = Inr bk" and "1 \<le> b"
  shows "for_each (window_body fp X Y G L b R pre post)
           (map (\<lambda>i. (i, G ! i)) [0..<length G - nat b]) no_buckets = Inr bk"
  using assms by (simp add: batch_processing_def windows_of)

lemma batch_fills:
  fixes G :: "('d::linorder) list" and X :: "'a list"
    and sel :: "('d, 'a) buckets \<Rightarrow> ('d \<times> 'v) list"
  assumes run: "batch_processing fp X Y G L b R pre post = Inr bk"
    and b: "1 \<le> b" and d: "distinct G"
    and step: "\<And>i b1 b2. i + nat b < length G \<Longrightarrow>
                 window_body fp X Y G L b R pre post i (G ! i) b1 = Inr b2 \<Longrightarrow>
                 (if keep i then \<exists>v. Q i v \<and> sel b2 = AList.update (G ! (i + nat b)) v (sel b1)
                  else sel b2 = sel b1)"
    and empty: "sel no_buckets = []"
  shows "map fst (sel bk) = map (\<lambda>i. G ! (i + nat b)) (filter keep [0..<length G - nat b]) \<and>
         (\<forall>i. i + nat b < length G \<longrightarrow>
            (if keep i then \<exists>v. Q i v \<and> map_of (sel bk) (G ! (i + nat b)) = Some v
             else map_of (sel bk) (G ! (i + nat b)) = None))"
proof -
  let ?ws = "map (\<lambda>i. (i, G ! i)) [0..<length G - nat b]"
  let ?key = "\<lambda>w::nat \<times> 'd. G ! (fst w + nat b)"
  let ?keep = "\<lambda>w::nat \<times> 'd. keep (fst w)"
  let ?Q = "\<lambda>w::nat \<times> 'd. Q (fst w)"
  have keys: "map ?key ?ws = drop (nat b) G"
    by (simp add: comp_def ends_of_windows)
  have main: "map fst (sel bk) = map fst (sel no_buckets) @ map ?key (filter ?keep ?ws) \<and>
        (\<forall>w\<in>set ?ws. ?keep w \<longrightarrow> (\<exists>v. ?Q w v \<and> map_of (sel bk) (?key w) = Some v)) \<and>
        (\<forall>k. k \<notin> ?key ` set (filter ?keep ?ws) \<longrightarrow> map_of (sel bk) k = map_of (sel no_buckets) k)"
  proof (rule for_each_fills [where body = "window_body fp X Y G L b R pre post"])
    show "for_each (window_body fp X Y G L b R pre post) ?ws no_buckets = Inr bk"
      by (rule batch_processing_run [OF run b])
    show "distinct (map ?key ?ws)" unfolding keys using d by simp
    show "\<forall>w\<in>set ?ws. ?key w \<notin> fst ` set (sel no_buckets)"
      by (simp add: empty)
    show "if ?keep (i, s) then \<exists>v. ?Q (i, s) v \<and> sel b2 = AList.update (?key (i, s)) v (sel b1)
          else sel b2 = sel b1"
      if "(i, s) \<in> set ?ws" "window_body fp X Y G L b R pre post i s b1 = Inr b2" for i s b1 b2
    proof -
      from that(1) have i: "i + nat b < length G" and s: "s = G ! i" by auto
      from step [OF i] that(2) s show ?thesis by simp
    qed
  qed
  have filt: "filter ?keep ?ws = map (\<lambda>i. (i, G ! i)) (filter keep [0..<length G - nat b])"
    by (simp add: filter_map comp_def)
  have c1: "map fst (sel bk) = map (\<lambda>i. G ! (i + nat b)) (filter keep [0..<length G - nat b])"
    using main unfolding filt by (simp add: empty comp_def)
  have c2: "if keep i then \<exists>v. Q i v \<and> map_of (sel bk) (G ! (i + nat b)) = Some v
            else map_of (sel bk) (G ! (i + nat b)) = None"
    if i: "i + nat b < length G" for i
  proof (cases "keep i")
    case True
    from i have "(i, G ! i) \<in> set ?ws" by auto
    from bspec [OF main [THEN conjunct2, THEN conjunct1] this] True show ?thesis by simp
  next
    case False
    have "G ! (i + nat b) \<notin> ?key ` set (filter ?keep ?ws)"
    proof
      assume "G ! (i + nat b) \<in> ?key ` set (filter ?keep ?ws)"
      then have "\<exists>j. j < length G - nat b \<and> keep j \<and> G ! (i + nat b) = G ! (j + nat b)"
        unfolding filt by auto
      then obtain j where j: "j < length G - nat b" "keep j" "G ! (i + nat b) = G ! (j + nat b)"
        by blast
      from j(1) have "j + nat b < length G" by simp
      with d i j(3) have "i + nat b = j + nat b" by (simp add: nth_eq_iff_index_eq)
      with j False show False by simp
    qed
    with spec [OF main [THEN conjunct2, THEN conjunct2], of "G ! (i + nat b)"]
    have "map_of (sel bk) (G ! (i + nat b)) = map_of (sel no_buckets) (G ! (i + nat b))"
      by (rule mp)
    with False show ?thesis by (simp add: empty)
  qed
  from c1 c2 show ?thesis by blast
qed

lemma strictly_increasing_distinct: "sorted_wrt (<) (G :: ('d::linorder) list) \<Longrightarrow> distinct G"
  by (induction G) auto

lemma rows_in_labels: "rows_in P ls ls = filter P ls"
  by (induction ls) (simp_all add: rows_in_def)

lemma length_rows_in: "length xs = length ls \<Longrightarrow> length (rows_in P ls xs) = length (filter P ls)"
  by (induction xs ls rule: list_induct2) (simp_all add: rows_in_def)

lemma rows_in_Nil_iff: "length xs = length ls \<Longrightarrow> rows_in P ls xs = [] \<longleftrightarrow> filter P ls = []"
  using length_rows_in [of xs ls P] by (metis length_0_conv)

lemma train_x_filled:
  fixes G :: "('d::linorder) list" and X :: "'a list"
  assumes run: "batch_processing fp X Y G L b R pre post = Inr bk"
    and b: "1 \<le> b" and d: "distinct G"
  shows "map fst (train_x_buckets bk) = drop (nat b) G \<and>
         (\<forall>i. i + nat b < length G \<longrightarrow>
            (\<exists>v. fp (rows_in (train_window (G ! i) (G ! (i + nat b))) L X) pre
                    (map_option (rows_in (train_window (G ! i) (G ! (i + nat b))) L) R) post = Inr v \<and>
                 map_of (train_x_buckets bk) (G ! (i + nat b)) = Some v))"
proof -
  have "map fst (train_x_buckets bk) =
          map (\<lambda>i. G ! (i + nat b)) (filter (\<lambda>_. True) [0..<length G - nat b]) \<and>
        (\<forall>i. i + nat b < length G \<longrightarrow>
           (if True
            then \<exists>v. fp (rows_in (train_window (G ! i) (G ! (i + nat b))) L X) pre
                    (map_option (rows_in (train_window (G ! i) (G ! (i + nat b))) L) R) post = Inr v \<and>
                 map_of (train_x_buckets bk) (G ! (i + nat b)) = Some v
            else map_of (train_x_buckets bk) (G ! (i + nat b)) = None))"
  proof (rule batch_fills [OF run b d])
    show "train_x_buckets (no_buckets :: ('d, 'a) buckets) = []" by (simp add: no_buckets_def)
    show "if True
          then \<exists>v. fp (rows_in (train_window (G ! i) (G ! (i + nat b))) L X) pre
                    (map_option (rows_in (train_window (G ! i) (G ! (i + nat b))) L) R) post = Inr v \<and>
                 train_x_buckets b2 = AList.update (G ! (i + nat b)) v (train_x_buckets b1)
          else train_x_buckets b2 = train_x_buckets b1"
      if "i + nat b < length G" "window_body fp X Y G L b R pre post i (G ! i) b1 = Inr b2"
      for i b1 b2
      using window_body_at [OF that(2) b that(1)] by auto
  qed
  then show ?thesis by (simp add: ends_of_windows)
qed

lemma train_y_filled:
  fixes G :: "('d::linorder) list" and X :: "'a list"
  assumes run: "batch_processing fp X Y G L b R pre post = Inr bk"
    and b: "1 \<le> b" and d: "distinct G"
  shows "map fst (train_y_buckets bk) = drop (nat b) G \<and>
         (\<forall>i. i + nat b < length G \<longrightarrow>
            (\<exists>v. fp (rows_in (train_window (G ! i) (G ! (i + nat b))) L Y) pre
                    (map_option (rows_in (train_window (G ! i) (G ! (i + nat b))) L) R) post = Inr v \<and>
                 map_of (train_y_buckets bk) (G ! (i + nat b)) = Some v))"
proof -
  have "map fst (train_y_buckets bk) =
          map (\<lambda>i. G ! (i + nat b)) (filter (\<lambda>_. True) [0..<length G - nat b]) \<and>
        (\<forall>i. i + nat b < length G \<longrightarrow>
           (if True
            then \<exists>v. fp (rows_in (train_window (G ! i) (G ! (i + nat b))) L Y) pre
                    (map_option (rows_in (train_window (G ! i) (G ! (i + nat b))) L) R) post = Inr v \<and>
                 map_of (train_y_buckets bk) (G ! (i + nat b)) = Some v
            else map_of (train_y_buckets bk) (G ! (i + nat b)) = None))"
  proof (rule batch_fills [OF run b d])
    show "train_y_buckets (no_buckets :: ('d, 'a) buckets) = []" by (simp add: no_buckets_def)
    show "if True
          then \<exists>v. fp (rows_in (train_window (G ! i) (G ! (i + nat b))) L Y) pre
                    (map_option (rows_in (train_window (G ! i) (G ! (i + nat b))) L) R) post = Inr v \<and>
                 train_y_buckets b2 = AList.update (G ! (i + nat b)) v (train_y_buckets b1)
          else train_y_buckets b2 = train_y_buckets b1"
      if "i + nat b < length G" "window_body fp X Y G L b R pre post i (G ! i) b1 = Inr b2"
      for i b1 b2
      using window_body_at [OF that(2) b that(1)] by auto
  qed
  then show ?thesis by (simp add: ends_of_windows)
qed

lemma predict_x_filled:
  fixes G :: "('d::linorder) list" and X :: "'a list"
  assumes run: "batch_processing fp X Y G L b R pre post = Inr bk"
    and b: "1 \<le> b" and d: "distinct G"
  shows "map fst (predict_x_buckets bk) = drop (nat b) G \<and>
         (\<forall>i. i + nat b < length G \<longrightarrow>
            (\<exists>v. (\<exists>nx. fp (rows_in (predict_window (G ! i) (G ! (i + nat b))) L X) pre
                    (map_option (rows_in (predict_window (G ! i) (G ! (i + nat b))) L) R) post = Inr nx \<and>
                    length nx = length (rows_in (predict_window (G ! i) (G ! (i + nat b))) L L) \<and>
                    v = rows_in (\<lambda>d. d = G ! (i + nat b))
                          (rows_in (predict_window (G ! i) (G ! (i + nat b))) L L) nx) \<and>
                 map_of (predict_x_buckets bk) (G ! (i + nat b)) = Some v))"
proof -
  have "map fst (predict_x_buckets bk) =
          map (\<lambda>i. G ! (i + nat b)) (filter (\<lambda>_. True) [0..<length G - nat b]) \<and>
        (\<forall>i. i + nat b < length G \<longrightarrow>
           (if True
            then \<exists>v. (\<exists>nx. fp (rows_in (predict_window (G ! i) (G ! (i + nat b))) L X) pre
                    (map_option (rows_in (predict_window (G ! i) (G ! (i + nat b))) L) R) post = Inr nx \<and>
                    length nx = length (rows_in (predict_window (G ! i) (G ! (i + nat b))) L L) \<and>
                    v = rows_in (\<lambda>d. d = G ! (i + nat b))
                          (rows_in (predict_window (G ! i) (G ! (i + nat b))) L L) nx) \<and>
                 map_of (predict_x_buckets bk) (G ! (i + nat b)) = Some v
            else map_of (predict_x_buckets bk) (G ! (i + nat b)) = None))"
  proof (rule batch_fills [OF run b d])
    show "predict_x_buckets (no_buckets :: ('d, 'a) buckets) = []" by (simp add: no_buckets_def)
    show "if True
          then \<exists>v. (\<exists>nx. fp (rows_in (predict_window (G ! i) (G ! (i + nat b))) L X) pre
                    (map_option (rows_in (predict_window (G ! i) (G ! (i + nat b))) L) R) post = Inr nx \<and>
                    length nx = length (rows_in (predict_window (G ! i) (G ! (i + nat b))) L L) \<and>
                    v = rows_in (\<lambda>d. d = G ! (i + nat b))
                          (rows_in (predict_window (G ! i) (G ! (i + nat b))) L L) nx) \<and>
                 predict_x_buckets b2 = AList.update (G ! (i + nat b)) v (predict_x_buckets b1)
          else predict_x_buckets b2 = predict_x_buckets b1"
      if "i + nat b < length G" "window_body fp X Y G L b R pre post i (G ! i) b1 = Inr b2"
      for i b1 b2
      using window_body_at [OF that(2) b that(1)] by auto
  qed
  then show ?thesis by (simp add: ends_of_windows)
qed

lemma predict_y_filled:
  fixes G :: "('d::linorder) list" and X :: "'a list"
  assumes run: "batch_processing fp X Y G L b R pre post = Inr bk"
    and b: "1 \<le> b" and d: "distinct G"
  shows "map fst (predict_y_buckets bk) =
           map (\<lambda>i. G ! (i + nat b))
             (filter (\<lambda>i. rows_in (predict_window (G ! i) (G ! (i + nat b))) L Y \<noteq> [])
                [0..<length G - nat b]) \<and>
         (\<forall>i. i + nat b < length G \<longrightarrow>
            (if rows_in (predict_window (G ! i) (G ! (i + nat b))) L Y \<noteq> []
             then \<exists>v. (\<exists>ny. fp (rows_in (predict_window (G ! i) (G ! (i + nat b))) L Y) pre
                    (map_option (rows_in (predict_window (G ! i) (G ! (i + nat b))) L) R) post = Inr ny \<and>
                    length ny = length (rows_in (predict_window (G ! i) (G ! (i + nat b))) L L) \<and>
                    v = rows_in (\<lambda>d. d = G ! (i + nat b))
                          (rows_in (predict_window (G ! i) (G ! (i + nat b))) L L) ny) \<and>
                 map_of (predict_y_buckets bk) (G ! (i + nat b)) = Some v
             else map_of (predict_y_buckets bk) (G ! (i + nat b)) = None))"
proof (rule batch_fills [OF run b d])
  show "predict_y_buckets (no_buckets :: ('d, 'a) buckets) = []" by (simp add: no_buckets_def)
  show "if rows_in (predict_window (G ! i) (G ! (i + nat b))) L Y \<noteq> []
        then \<exists>v. (\<exists>ny. fp (rows_in (predict_window (G ! i) (G ! (i + nat b))) L Y) pre
                    (map_option (rows_in (predict_window (G ! i) (G ! (i + nat b))) L) R) post = Inr ny \<and>
                    length ny = length (rows_in (predict_window (G ! i) (G ! (i + nat b))) L L) \<and>
                    v = rows_in (\<lambda>d. d = G ! (i + nat b))
                          (rows_in (predict_window (G ! i) (G ! (i + nat b))) L L) ny) \<and>
                 predict_y_buckets b2 = AList.update (G ! (i + nat b)) v (predict_y_buckets b1)
        else predict_y_buckets b2 = predict_y_buckets b1"
    if "i + nat b < length G" "window_body fp X Y G L b R pre post i (G ! i) b1 = Inr b2"
    for i b1 b2
    using window_body_at [OF that(2) b that(1)] by (auto split: if_splits)
qed

lemma batch_aligned:
  assumes run: "batch_processing fp X Y G L b R pre post = Inr bk"
    and b: "1 \<le> b" and i: "i + nat b < length G"
  shows "length L = length X \<and> length L = length Y"
proof -
  have "for_each (window_body fp X Y G L b R pre post) ws s = Inr bk \<Longrightarrow>
        (i, G ! i) \<in> set ws \<Longrightarrow> length L = length X \<and> length L = length Y" for ws s
  proof (induction ws arbitrary: s)
    case Nil
    then show ?case by simp
  next
    case (Cons w ws)
    obtain j t where w: "w = (j, t)" by (cases w)
    from Cons.prems(1) w obtain s1 where
      s1: "window_body fp X Y G L b R pre post j t s = Inr s1"
      and rest: "for_each (window_body fp X Y G L b R pre post) ws s1 = Inr bk"
      by (auto split: sum.splits)
    show ?case
    proof (cases "w = (i, G ! i)")
      case True
      with w have "j = i" and "t = G ! i" by auto
      with s1 have "window_body fp X Y G L b R pre post i (G ! i) s = Inr s1" by simp
      from window_body_at [OF this b i] show ?thesis by auto
    next
      case False
      with Cons.prems(2) have "(i, G ! i) \<in> set ws" by simp
      from Cons.IH [OF rest this] show ?thesis .
    qed
  qed
  moreover have "(i, G ! i) \<in> set (map (\<lambda>i. (i, G ! i)) [0..<length G - nat b])"
    using i by auto
  ultimately show ?thesis using batch_processing_run [OF run b] by blast
qed

lemma and_then_Inr_left: "and_then (Inr v) f = f v"
  by (simp add: and_then_def)

lemma mask_index_aligned:
  "length labels = length xs \<Longrightarrow> mask_index xs (map P labels) = Inr (rows_in P labels xs)"
  by (simp add: mask_index_Inr)

lemma risk_rows_aligned:
  "\<forall>r. R = Some r \<longrightarrow> length labels = length r \<Longrightarrow>
   risk_rows R (map P labels) = Inr (map_option (rows_in P labels) R)"
  by (simp add: risk_rows_Inr)

lemma for_each_returns:
  assumes "\<And>i s st. (i, s) \<in> set ws \<Longrightarrow> \<exists>st'. body i s st = Inr st'"
  shows "\<exists>st'. for_each body ws st = Inr st'"
  using assms
proof (induction ws arbitrary: st)
  case Nil
  then show ?case by simp
next
  case (Cons w ws)
  obtain i s where w: "w = (i, s)" by (cases w)
  from Cons.prems [of i s st] w obtain st1 where st1: "body i s st = Inr st1" by auto
  have "\<exists>st'. for_each body ws st1 = Inr st'"
    by (rule Cons.IH) (simp add: Cons.prems)
  with st1 w show ?case by simp
qed

lemma window_body_returns:
  fixes G :: "('d::linorder) list"
  assumes b: "1 \<le> b" and i: "i + nat b < length G"
    and X: "length L = length X" and Y: "length L = length Y"
    and R: "\<forall>r. R = Some r \<longrightarrow> length L = length r"
    and fp: "\<forall>raw p r q. \<exists>v. fp raw p r q = Inr v \<and> length v = length raw"
  shows "\<exists>b'. window_body fp X Y G L b R pre post i start b0 = Inr b'"
proof -
  let ?e = "G ! (i + nat b)"
  let ?tw = "\<lambda>l. start \<le> l \<and> l < ?e"
  let ?pw = "\<lambda>l. start < l \<and> l \<le> ?e"
  have it: "item G (int i + b) = Inr ?e"
    using item_nat [of i "nat b" G] b i by simp
  from fp obtain tx where tx: "fp (rows_in ?tw L X) pre (map_option (rows_in ?tw L) R) post = Inr tx"
    by meson
  from fp obtain ty where ty: "fp (rows_in ?tw L Y) pre (map_option (rows_in ?tw L) R) post = Inr ty"
    by meson
  from fp obtain nx where nx: "fp (rows_in ?pw L X) pre (map_option (rows_in ?pw L) R) post = Inr nx"
    and lnx: "length nx = length (rows_in ?pw L X)"
    by meson
  from fp obtain ny where ny: "fp (rows_in ?pw L Y) pre (map_option (rows_in ?pw L) R) post = Inr ny"
    and lny: "length ny = length (rows_in ?pw L Y)"
    by meson
  have sub: "mask_index L (map ?pw L) = Inr (rows_in ?pw L L)"
    by (simp add: mask_index_aligned)
  have lx: "length (rows_in ?pw L L) = length nx"
    using lnx X by (simp add: length_rows_in)
  have ly: "length (rows_in ?pw L L) = length ny"
    using lny Y by (simp add: length_rows_in)
  have mx: "mask_index nx (map (\<lambda>d. d = ?e) (rows_in ?pw L L))
              = Inr (rows_in (\<lambda>d. d = ?e) (rows_in ?pw L L) nx)"
    using lx by (rule mask_index_aligned)
  have my: "mask_index ny (map (\<lambda>d. d = ?e) (rows_in ?pw L L))
              = Inr (rows_in (\<lambda>d. d = ?e) (rows_in ?pw L L) ny)"
    using ly by (rule mask_index_aligned)
  show ?thesis
    unfolding window_body_def Let_def it and_then_Inr_left
      mask_index_aligned [OF X] mask_index_aligned [OF Y] risk_rows_aligned [OF R]
      tx ty sub nx mx ny my
    by (simp add: and_then_Inr_left ny my)
qed

lemma batch_processing_returns:
  fixes G :: "('d::linorder) list"
  assumes b: "1 \<le> b"
    and X: "length L = length X" and Y: "length L = length Y"
    and R: "\<forall>r. R = Some r \<longrightarrow> length L = length r"
    and fp: "\<forall>raw p r q. \<exists>v. fp raw p r q = Inr v \<and> length v = length raw"
  shows "\<exists>bk. batch_processing fp X Y G L b R pre post = Inr bk"
  unfolding batch_processing_def windows_of [OF b]
proof (rule for_each_returns)
  fix i s st
  assume "(i, s) \<in> set (map (\<lambda>i. (i, G ! i)) [0..<length G - nat b])"
  then have "i + nat b < length G" by auto
  from window_body_returns [OF b this X Y R fp]
  show "\<exists>st'. window_body fp X Y G L b R pre post i s st = Inr st'" .
qed

lemma window_ends_ordered:
  fixes G :: "('d::linorder) list"
  assumes "sorted_wrt (<) G" and "1 \<le> b" and "i + nat b < length G"
  shows "G ! i < G ! (i + nat b)"
  using assms by (simp add: sorted_wrt_nth_less)

text \<open>
  C1. For a window index \<open>i\<close> of a strictly increasing schedule, the train buckets stored
  under the key \<open>end = schedule_dates[i + batch_size]\<close> are the transform of exactly
  the rows labelled in \<open>[schedule_dates[i], end)\<close>: every row labelled \<open>start\<close> is in
  that slice and no row labelled \<open>end\<close> is.
\<close>

theorem train_bucket_window:
  fixes G :: "('d::linorder) list"
  assumes run: "batch_processing fp X Y G L b R pre post = Inr bk"
    and inc: "sorted_wrt (<) G" and b: "1 \<le> b" and i: "i + nat b < length G"
  shows "(\<exists>vx vy.
            fp (rows_in (train_window (G ! i) (G ! (i + nat b))) L X) pre
               (map_option (rows_in (train_window (G ! i) (G ! (i + nat b))) L) R) post = Inr vx \<and>
            map_of (train_x_buckets bk) (G ! (i + nat b)) = Some vx \<and>
            fp (rows_in (train_window (G ! i) (G ! (i + nat b))) L Y) pre
               (map_option (rows_in (train_window (G ! i) (G ! (i + nat b))) L) R) post = Inr vy \<and>
            map_of (train_y_buckets bk) (G ! (i + nat b)) = Some vy) \<and>
         length X = length L \<and> length Y = length L \<and>
         filter (\<lambda>l. l = G ! i) (rows_in (train_window (G ! i) (G ! (i + nat b))) L L)
           = filter (\<lambda>l. l = G ! i) L \<and>
         filter (\<lambda>l. l = G ! (i + nat b)) (rows_in (train_window (G ! i) (G ! (i + nat b))) L L)
           = []"
proof -
  have d: "distinct G" using inc by (rule strictly_increasing_distinct)
  have lt: "G ! i < G ! (i + nat b)" using inc b i by (rule window_ends_ordered)
  from train_x_filled [OF run b d] i obtain vx where
    vx: "fp (rows_in (train_window (G ! i) (G ! (i + nat b))) L X) pre
           (map_option (rows_in (train_window (G ! i) (G ! (i + nat b))) L) R) post = Inr vx"
        "map_of (train_x_buckets bk) (G ! (i + nat b)) = Some vx"
    by blast
  from train_y_filled [OF run b d] i obtain vy where
    vy: "fp (rows_in (train_window (G ! i) (G ! (i + nat b))) L Y) pre
           (map_option (rows_in (train_window (G ! i) (G ! (i + nat b))) L) R) post = Inr vy"
        "map_of (train_y_buckets bk) (G ! (i + nat b)) = Some vy"
    by blast
  have al: "length X = length L \<and> length Y = length L"
    using batch_aligned [OF run b i] by simp
  have s: "filter (\<lambda>l. l = G ! i) (rows_in (train_window (G ! i) (G ! (i + nat b))) L L)
             = filter (\<lambda>l. l = G ! i) L"
    using lt by (auto simp: rows_in_labels train_window_def intro: filter_cong)
  have e: "filter (\<lambda>l. l = G ! (i + nat b)) (rows_in (train_window (G ! i) (G ! (i + nat b))) L L)
             = []"
    by (auto simp: rows_in_labels train_window_def filter_empty_conv)
  from vx vy al s e show ?thesis by blast
qed


theorem train_bucket_window_witness:
  "batch_processing raw_processing [[1::int], [2], [3], [4]] [[10], [20], [30], [40]]
     [1, 2, 3, 4::nat] [1, 2, 3, 4] 1 (None :: int list list option) () ()
   = Inr \<lparr>train_x_buckets = [(2, [[1]]), (3, [[2]]), (4, [[3]])],
          train_y_buckets = [(2, [[10]]), (3, [[20]]), (4, [[30]])],
          predict_x_buckets = [(2, [[2]]), (3, [[3]]), (4, [[4]])],
          predict_y_buckets = [(2, [[20]]), (3, [[30]]), (4, [[40]])]\<rparr> \<and>
   sorted_wrt (<) [1, 2, 3, 4::nat] \<and>
   rows_in (train_window 2 3) [1, 2, 3, 4::nat] [[1::int], [2], [3], [4]] = [[2]] \<and>
   map_of [(2::nat, [[1::int]]), (3, [[2]]), (4, [[3]])] 3 = Some [[2]] \<and>
   rows_in (train_window 2 3) [1, 2, 3, 4::nat] [1, 2, 3, 4::nat] = [2]"
proof -
  have run: "batch_processing raw_processing [[1::int], [2], [3], [4]] [[10], [20], [30], [40]]
     [1, 2, 3, 4::nat] [1, 2, 3, 4] 1 (None :: int list list option) () ()
   = Inr \<lparr>train_x_buckets = [(2, [[1]]), (3, [[2]]), (4, [[3]])],
          train_y_buckets = [(2, [[10]]), (3, [[20]]), (4, [[30]])],
          predict_x_buckets = [(2, [[2]]), (3, [[3]]), (4, [[4]])],
          predict_y_buckets = [(2, [[20]]), (3, [[30]]), (4, [[40]])]\<rparr>"
    by code_simp
  have inc: "sorted_wrt (<) [1, 2, 3, 4::nat]" by simp
  have b: "(1::int) \<le> 1" by simp
  have i: "1 + nat 1 < length [1, 2, 3, 4::nat]" by simp
  from train_bucket_window [OF run inc b i] run inc show ?thesis
    by (simp add: rows_in_def train_window_def raw_processing_def)
qed


lemma end_rows_of_window:
  fixes s :: "'d::linorder"
  assumes "s < e" and "length nx = length (rows_in (predict_window s e) L L)"
  shows "length (rows_in (\<lambda>d. d = e) (rows_in (predict_window s e) L L) nx)
           = length (filter (\<lambda>l. l = e) L)"
proof -
  have "filter (\<lambda>d. d = e) (filter (predict_window s e) L) = filter (\<lambda>l. l = e) L"
    using assms(1) by (auto simp: predict_window_def intro: filter_cong)
  then show ?thesis
    using length_rows_in [OF assms(2), of "\<lambda>d. d = e"] by (simp add: rows_in_labels)
qed

text \<open>
  C2. For a window index \<open>i\<close> of a strictly increasing schedule, the predict feature
  bucket under the key \<open>end\<close> holds, of the transform of the rows labelled in
  \<open>(schedule_dates[i], end]\<close>, only the rows labelled \<open>end\<close>; so does the predict
  target bucket when there is one.
\<close>

theorem predict_bucket_end_only:
  fixes G :: "('d::linorder) list"
  assumes run: "batch_processing fp X Y G L b R pre post = Inr bk"
    and inc: "sorted_wrt (<) G" and b: "1 \<le> b" and i: "i + nat b < length G"
  shows "(\<exists>nx. fp (rows_in (predict_window (G ! i) (G ! (i + nat b))) L X) pre
                  (map_option (rows_in (predict_window (G ! i) (G ! (i + nat b))) L) R) post = Inr nx \<and>
               length nx = length (rows_in (predict_window (G ! i) (G ! (i + nat b))) L L) \<and>
               map_of (predict_x_buckets bk) (G ! (i + nat b))
                 = Some (rows_in (\<lambda>d. d = G ! (i + nat b))
                           (rows_in (predict_window (G ! i) (G ! (i + nat b))) L L) nx) \<and>
               length (rows_in (\<lambda>d. d = G ! (i + nat b))
                         (rows_in (predict_window (G ! i) (G ! (i + nat b))) L L) nx)
                 = length (filter (\<lambda>l. l = G ! (i + nat b)) L)) \<and>
         (\<forall>v. map_of (predict_y_buckets bk) (G ! (i + nat b)) = Some v \<longrightarrow>
            (\<exists>ny. fp (rows_in (predict_window (G ! i) (G ! (i + nat b))) L Y) pre
                    (map_option (rows_in (predict_window (G ! i) (G ! (i + nat b))) L) R) post = Inr ny \<and>
                  length ny = length (rows_in (predict_window (G ! i) (G ! (i + nat b))) L L) \<and>
                  v = rows_in (\<lambda>d. d = G ! (i + nat b))
                        (rows_in (predict_window (G ! i) (G ! (i + nat b))) L L) ny \<and>
                  length v = length (filter (\<lambda>l. l = G ! (i + nat b)) L)))"
proof -
  have d: "distinct G" using inc by (rule strictly_increasing_distinct)
  have lt: "G ! i < G ! (i + nat b)" using inc b i by (rule window_ends_ordered)
  from predict_x_filled [OF run b d] i obtain nx where
    nx: "fp (rows_in (predict_window (G ! i) (G ! (i + nat b))) L X) pre
           (map_option (rows_in (predict_window (G ! i) (G ! (i + nat b))) L) R) post = Inr nx"
        "length nx = length (rows_in (predict_window (G ! i) (G ! (i + nat b))) L L)"
        "map_of (predict_x_buckets bk) (G ! (i + nat b))
           = Some (rows_in (\<lambda>d. d = G ! (i + nat b))
                     (rows_in (predict_window (G ! i) (G ! (i + nat b))) L L) nx)"
    by blast
  note cx = end_rows_of_window [OF lt nx(2)]
  have py: "\<exists>ny. fp (rows_in (predict_window (G ! i) (G ! (i + nat b))) L Y) pre
                    (map_option (rows_in (predict_window (G ! i) (G ! (i + nat b))) L) R) post = Inr ny \<and>
                  length ny = length (rows_in (predict_window (G ! i) (G ! (i + nat b))) L L) \<and>
                  v = rows_in (\<lambda>d. d = G ! (i + nat b))
                        (rows_in (predict_window (G ! i) (G ! (i + nat b))) L L) ny \<and>
                  length v = length (filter (\<lambda>l. l = G ! (i + nat b)) L)"
    if v: "map_of (predict_y_buckets bk) (G ! (i + nat b)) = Some v" for v
  proof (cases "rows_in (predict_window (G ! i) (G ! (i + nat b))) L Y = []")
    case True
    with predict_y_filled [OF run b d, THEN conjunct2, rule_format, OF i]
    have "map_of (predict_y_buckets bk) (G ! (i + nat b)) = None" by simp
    with v show ?thesis by simp
  next
    case False
    with predict_y_filled [OF run b d, THEN conjunct2, rule_format, OF i]
    have "\<exists>v. (\<exists>ny. fp (rows_in (predict_window (G ! i) (G ! (i + nat b))) L Y) pre
                    (map_option (rows_in (predict_window (G ! i) (G ! (i + nat b))) L) R) post = Inr ny \<and>
                    length ny = length (rows_in (predict_window (G ! i) (G ! (i + nat b))) L L) \<and>
                    v = rows_in (\<lambda>d. d = G ! (i + nat b))
                          (rows_in (predict_window (G ! i) (G ! (i + nat b))) L L) ny) \<and>
                 map_of (predict_y_buckets bk) (G ! (i + nat b)) = Some v"
      by simp
    then obtain ny where
      ny: "fp (rows_in (predict_window (G ! i) (G ! (i + nat b))) L Y) pre
             (map_option (rows_in (predict_window (G ! i) (G ! (i + nat b))) L) R) post = Inr ny"
          "length ny = length (rows_in (predict_window (G ! i) (G ! (i + nat b))) L L)"
          "map_of (predict_y_buckets bk) (G ! (i + nat b))
             = Some (rows_in (\<lambda>d. d = G ! (i + nat b))
                       (rows_in (predict_window (G ! i) (G ! (i + nat b))) L L) ny)"
      by blast
    from ny(3) v have "v = rows_in (\<lambda>d. d = G ! (i + nat b))
                       (rows_in (predict_window (G ! i) (G ! (i + nat b))) L L) ny" by simp
    with ny(1,2) end_rows_of_window [OF lt ny(2)] show ?thesis by blast
  qed
  from nx cx py show ?thesis by blast
qed

theorem predict_bucket_end_only_witness:
  "batch_processing raw_processing [[1::int], [2], [3], [4], [5], [6]]
     [[10], [20], [30], [40], [50], [60]] [1, 2, 3, 4::nat] [1, 1, 2, 3, 3, 4] 2
     (Some [[7::int], [7], [8], [9], [9], [0]]) () ()
   = Inr \<lparr>train_x_buckets = [(3, [[1], [2], [3]]), (4, [[3], [4], [5]])],
          train_y_buckets = [(3, [[10], [20], [30]]), (4, [[30], [40], [50]])],
          predict_x_buckets = [(3, [[4], [5]]), (4, [[6]])],
          predict_y_buckets = [(3, [[40], [50]]), (4, [[60]])]\<rparr> \<and>
   sorted_wrt (<) [1, 2, 3, 4::nat] \<and>
   rows_in (predict_window 1 3) [1, 1, 2, 3, 3, 4::nat] [[1::int], [2], [3], [4], [5], [6]]
     = [[3], [4], [5]] \<and>
   rows_in (predict_window 1 3) [1, 1, 2, 3, 3, 4::nat] [1, 1, 2, 3, 3, 4::nat] = [2, 3, 3] \<and>
   map_of [(3::nat, [[4::int], [5]]), (4, [[6]])] 3 = Some (rows_in (\<lambda>d. d = 3) [2, 3, 3::nat] [[3], [4], [5]]) \<and>
   length (filter (\<lambda>l. l = 3) [1, 1, 2, 3, 3, 4::nat]) = 2"
proof -
  have run: "batch_processing raw_processing [[1::int], [2], [3], [4], [5], [6]]
     [[10], [20], [30], [40], [50], [60]] [1, 2, 3, 4::nat] [1, 1, 2, 3, 3, 4] 2
     (Some [[7::int], [7], [8], [9], [9], [0]]) () ()
   = Inr \<lparr>train_x_buckets = [(3, [[1], [2], [3]]), (4, [[3], [4], [5]])],
          train_y_buckets = [(3, [[10], [20], [30]]), (4, [[30], [40], [50]])],
          predict_x_buckets = [(3, [[4], [5]]), (4, [[6]])],
          predict_y_buckets = [(3, [[40], [50]]), (4, [[60]])]\<rparr>"
    by code_simp
  have inc: "sorted_wrt (<) [1, 2, 3, 4::nat]" by simp
  have b: "(1::int) \<le> 2" by simp
  have i: "0 + nat 2 < length [1, 2, 3, 4::nat]" by simp
  from predict_bucket_end_only [OF run inc b i] run inc show ?thesis
    by (simp add: rows_in_def predict_window_def raw_processing_def)
qed

text \<open>
  C3 (amended). For a strictly increasing schedule of length \<open>n\<close> and a batch size
  \<open>b\<close> with \<open>1 \<le> b \<le> n\<close>, a run that returns has exactly \<open>n - b\<close> train buckets of
  features and of targets, keyed by \<open>schedule_dates[b], ..., schedule_dates[n - 1]\<close> in
  this order, and at most \<open>n - b\<close> predict buckets under keys among these; and the run
  returns when the arrays are aligned with the labels and the transform returns as many
  rows as it is given.
\<close>

theorem bucket_keys:
  fixes G :: "('d::linorder) list"
  assumes inc: "sorted_wrt (<) G" and b: "1 \<le> b" and bn: "b \<le> int (length G)"
  shows "(\<forall>bk. batch_processing fp X Y G L b R pre post = Inr bk \<longrightarrow>
            map fst (train_x_buckets bk) = drop (nat b) G \<and>
            map fst (train_y_buckets bk) = drop (nat b) G \<and>
            length (train_x_buckets bk) = length G - nat b \<and>
            length (train_y_buckets bk) = length G - nat b \<and>
            length (predict_x_buckets bk) \<le> length G - nat b \<and>
            length (predict_y_buckets bk) \<le> length G - nat b \<and>
            set (map fst (predict_x_buckets bk)) \<subseteq> set (drop (nat b) G) \<and>
            set (map fst (predict_y_buckets bk)) \<subseteq> set (drop (nat b) G)) \<and>
         (length L = length X \<and> length L = length Y \<and>
          (\<forall>r. R = Some r \<longrightarrow> length L = length r) \<and>
          (\<forall>raw p r q. \<exists>v. fp raw p r q = Inr v \<and> length v = length raw) \<longrightarrow>
            (\<exists>bk. batch_processing fp X Y G L b R pre post = Inr bk))"
proof (intro conjI allI impI)
  fix bk
  assume run: "batch_processing fp X Y G L b R pre post = Inr bk"
  have d: "distinct G" using inc by (rule strictly_increasing_distinct)
  note tx = train_x_filled [OF run b d, THEN conjunct1]
  note ty = train_y_filled [OF run b d, THEN conjunct1]
  note px = predict_x_filled [OF run b d, THEN conjunct1]
  note py = predict_y_filled [OF run b d, THEN conjunct1]
  have len: "length (map fst al) = length al" for al :: "('d \<times> 'a list) list" by simp
  show "map fst (train_x_buckets bk) = drop (nat b) G" by (rule tx)
  show "map fst (train_y_buckets bk) = drop (nat b) G" by (rule ty)
  show "length (train_x_buckets bk) = length G - nat b"
    using arg_cong [OF tx, of length] by simp
  show "length (train_y_buckets bk) = length G - nat b"
    using arg_cong [OF ty, of length] by simp
  show "length (predict_x_buckets bk) \<le> length G - nat b"
    using arg_cong [OF px, of length] by simp
  have "length (predict_y_buckets bk) \<le> length [0..<length G - nat b]"
    using arg_cong [OF py, of length] length_filter_le [of _ "[0..<length G - nat b]"]
    by (simp del: length_filter_le length_upt)
  then show "length (predict_y_buckets bk) \<le> length G - nat b" by simp
  show "set (map fst (predict_x_buckets bk)) \<subseteq> set (drop (nat b) G)"
    unfolding px by simp
  have "set (map (\<lambda>i. G ! (i + nat b))
          (filter (\<lambda>i. rows_in (predict_window (G ! i) (G ! (i + nat b))) L Y \<noteq> [])
             [0..<length G - nat b]))
        \<subseteq> set (map (\<lambda>i. G ! (i + nat b)) [0..<length G - nat b])"
    by auto
  then show "set (map fst (predict_y_buckets bk)) \<subseteq> set (drop (nat b) G)"
    unfolding py ends_of_windows .
next
  assume "length L = length X \<and> length L = length Y \<and>
          (\<forall>r. R = Some r \<longrightarrow> length L = length r) \<and>
          (\<forall>raw p r q. \<exists>v. fp raw p r q = Inr v \<and> length v = length raw)"
  then show "\<exists>bk. batch_processing fp X Y G L b R pre post = Inr bk"
    using batch_processing_returns [OF b, of L X Y R fp G pre post] by blast
qed


theorem bucket_keys_witness:
  "sorted_wrt (<) [1, 2, 3, 4::nat] \<and> (1::int) \<le> 1 \<and> (1::int) \<le> int (length [1, 2, 3, 4::nat]) \<and>
   batch_processing raw_processing [[1::int], [2], [3], [4]] [[10], [20], [30], [40]]
     [1, 2, 3, 4::nat] [1, 2, 3, 4] 1 (None :: int list list option) () ()
   = Inr \<lparr>train_x_buckets = [(2, [[1]]), (3, [[2]]), (4, [[3]])],
          train_y_buckets = [(2, [[10]]), (3, [[20]]), (4, [[30]])],
          predict_x_buckets = [(2, [[2]]), (3, [[3]]), (4, [[4]])],
          predict_y_buckets = [(2, [[20]]), (3, [[30]]), (4, [[40]])]\<rparr> \<and>
   map fst [(2::nat, [[1::int]]), (3, [[2]]), (4, [[3]])] = drop (nat 1) [1, 2, 3, 4] \<and>
   length [(2::nat, [[1::int]]), (3, [[2]]), (4, [[3]])] = length [1, 2, 3, 4::nat] - nat 1 \<and>
   (\<exists>bk. batch_processing raw_processing [[1::int], [2], [3], [4]] [[10], [20], [30], [40]]
     [1, 2, 3, 4::nat] [1, 2, 3, 4] 1 (None :: int list list option) () () = Inr bk)"
proof -
  have run: "batch_processing raw_processing [[1::int], [2], [3], [4]] [[10], [20], [30], [40]]
     [1, 2, 3, 4::nat] [1, 2, 3, 4] 1 (None :: int list list option) () ()
   = Inr \<lparr>train_x_buckets = [(2, [[1]]), (3, [[2]]), (4, [[3]])],
          train_y_buckets = [(2, [[10]]), (3, [[20]]), (4, [[30]])],
          predict_x_buckets = [(2, [[2]]), (3, [[3]]), (4, [[4]])],
          predict_y_buckets = [(2, [[20]]), (3, [[30]]), (4, [[40]])]\<rparr>"
    by code_simp
  have inc: "sorted_wrt (<) [1, 2, 3, 4::nat]" by simp
  have b: "(1::int) \<le> 1" by simp
  have bn: "(1::int) \<le> int (length [1, 2, 3, 4::nat])" by simp
  have total: "\<forall>raw p r q. \<exists>v. (raw_processing :: int list list \<Rightarrow> unit \<Rightarrow> int list list option \<Rightarrow> unit \<Rightarrow> _) raw p r q = Inr v \<and> length v = length raw"
    by (simp add: raw_processing_def)
  from bucket_keys [OF inc b bn, of raw_processing "[[1], [2], [3], [4]]"
      "[[10], [20], [30], [40]]" "[1, 2, 3, 4]" None "()" "()"] run total
  show ?thesis by simp
qed

theorem bucket_keys_counterexample:
  "(0::int) \<le> int (length [1, 2::nat]) \<and> sorted_wrt (<) [1, 2::nat] \<and>
   batch_processing raw_processing [[1::int], [2]] [[10], [20]] [1, 2::nat] [1, 2] 0
     (None :: int list list option) () ()
   = Inr \<lparr>train_x_buckets = [], train_y_buckets = [],
          predict_x_buckets = [], predict_y_buckets = []\<rparr> \<and>
   length ([] :: (nat \<times> int list list) list) \<noteq> length [1, 2::nat] - nat 0"
  by code_simp

text \<open>
  C4 (amended). For a window index \<open>i\<close> of a strictly increasing schedule: when no row
  is labelled in the predict input window \<open>(schedule_dates[i], end]\<close>, the returned
  predict target mapping has no entry under \<open>end\<close>; otherwise it has one, holding as
  many rows as carry the label \<open>end\<close> (none, when the window has rows but no row is
  labelled \<open>end\<close>).
\<close>

theorem predict_target_omitted:
  fixes G :: "('d::linorder) list"
  assumes run: "batch_processing fp X Y G L b R pre post = Inr bk"
    and inc: "sorted_wrt (<) G" and b: "1 \<le> b" and i: "i + nat b < length G"
  shows "(rows_in (predict_window (G ! i) (G ! (i + nat b))) L Y = [] \<longrightarrow>
            map_of (predict_y_buckets bk) (G ! (i + nat b)) = None) \<and>
         (rows_in (predict_window (G ! i) (G ! (i + nat b))) L Y \<noteq> [] \<longrightarrow>
            (\<exists>v. map_of (predict_y_buckets bk) (G ! (i + nat b)) = Some v \<and>
                 length v = length (filter (\<lambda>l. l = G ! (i + nat b)) L)))"
proof -
  have d: "distinct G" using inc by (rule strictly_increasing_distinct)
  have lt: "G ! i < G ! (i + nat b)" using inc b i by (rule window_ends_ordered)
  note w = predict_y_filled [OF run b d, THEN conjunct2, rule_format, OF i]
  show ?thesis
  proof (cases "rows_in (predict_window (G ! i) (G ! (i + nat b))) L Y = []")
    case True
    with w show ?thesis by simp
  next
    case False
    with w have "\<exists>v. (\<exists>ny. fp (rows_in (predict_window (G ! i) (G ! (i + nat b))) L Y) pre
                    (map_option (rows_in (predict_window (G ! i) (G ! (i + nat b))) L) R) post = Inr ny \<and>
                    length ny = length (rows_in (predict_window (G ! i) (G ! (i + nat b))) L L) \<and>
                    v = rows_in (\<lambda>d. d = G ! (i + nat b))
                          (rows_in (predict_window (G ! i) (G ! (i + nat b))) L L) ny) \<and>
                 map_of (predict_y_buckets bk) (G ! (i + nat b)) = Some v"
      by simp
    then obtain v ny where
      ny: "length ny = length (rows_in (predict_window (G ! i) (G ! (i + nat b))) L L)"
      and v: "v = rows_in (\<lambda>d. d = G ! (i + nat b))
                    (rows_in (predict_window (G ! i) (G ! (i + nat b))) L L) ny"
      and m: "map_of (predict_y_buckets bk) (G ! (i + nat b)) = Some v"
      by blast
    from end_rows_of_window [OF lt ny] v m False show ?thesis by simp
  qed
qed

theorem predict_target_omitted_witness:
  "batch_processing raw_processing [[1::int]] [[10]] [1, 3::nat] [0] 1
     (None :: int list list option) () ()
   = Inr \<lparr>train_x_buckets = [(3, [])], train_y_buckets = [(3, [])],
          predict_x_buckets = [(3, [])], predict_y_buckets = []\<rparr> \<and>
   rows_in (predict_window 1 3) [0::nat] [[10::int]] = [] \<and>
   map_of ([] :: (nat \<times> int list list) list) 3 = None \<and>
   batch_processing raw_processing [[1::int], [2], [3], [4]] [[10], [20], [30], [40]]
     [1, 2, 3, 4::nat] [1, 2, 3, 4] 1 (None :: int list list option) () ()
   = Inr \<lparr>train_x_buckets = [(2, [[1]]), (3, [[2]]), (4, [[3]])],
          train_y_buckets = [(2, [[10]]), (3, [[20]]), (4, [[30]])],
          predict_x_buckets = [(2, [[2]]), (3, [[3]]), (4, [[4]])],
          predict_y_buckets = [(2, [[20]]), (3, [[30]]), (4, [[40]])]\<rparr> \<and>
   rows_in (predict_window 1 2) [1, 2, 3, 4::nat] [[10::int], [20], [30], [40]] = [[20]] \<and>
   (\<exists>v. map_of [(2::nat, [[20::int]]), (3, [[30]]), (4, [[40]])] 2 = Some v \<and>
        length v = length (filter (\<lambda>l. l = 2) [1, 2, 3, 4::nat]))"
proof -
  have run0: "batch_processing raw_processing [[1::int]] [[10]] [1, 3::nat] [0] 1
     (None :: int list list option) () ()
   = Inr \<lparr>train_x_buckets = [(3, [])], train_y_buckets = [(3, [])],
          predict_x_buckets = [(3, [])], predict_y_buckets = []\<rparr>"
    by code_simp
  have run1: "batch_processing raw_processing [[1::int], [2], [3], [4]] [[10], [20], [30], [40]]
     [1, 2, 3, 4::nat] [1, 2, 3, 4] 1 (None :: int list list option) () ()
   = Inr \<lparr>train_x_buckets = [(2, [[1]]), (3, [[2]]), (4, [[3]])],
          train_y_buckets = [(2, [[10]]), (3, [[20]]), (4, [[30]])],
          predict_x_buckets = [(2, [[2]]), (3, [[3]]), (4, [[4]])],
          predict_y_buckets = [(2, [[20]]), (3, [[30]]), (4, [[40]])]\<rparr>"
    by code_simp
  have inc0: "sorted_wrt (<) [1, 3::nat]" and inc1: "sorted_wrt (<) [1, 2, 3, 4::nat]"
    by simp_all
  have b: "(1::int) \<le> 1" by simp
  have i0: "0 + nat 1 < length [1, 3::nat]" and i1: "0 + nat 1 < length [1, 2, 3, 4::nat]"
    by simp_all
  from predict_target_omitted [OF run0 inc0 b i0] predict_target_omitted [OF run1 inc1 b i1]
    run0 run1
  show ?thesis by (simp add: rows_in_def predict_window_def)
qed

theorem predict_target_omitted_counterexample:
  "sorted_wrt (<) [1, 3::nat] \<and>
   batch_processing raw_processing [[1::int]] [[10]] [1, 3::nat] [2] 1
     (None :: int list list option) () ()
   = Inr \<lparr>train_x_buckets = [(3, [[1]])], train_y_buckets = [(3, [[10]])],
          predict_x_buckets = [(3, [])], predict_y_buckets = [(3, [])]\<rparr> \<and>
   rows_in (\<lambda>l. l = 3) [2::nat] [[10::int]] = [] \<and>
   map_of [(3::nat, ([] :: int list list))] 3 = Some []"
  by code_simp


text \<open>
  C10. For a strictly increasing schedule of length \<open>n\<close> and a batch size \<open>b\<close> with
  \<open>1 \<le> b \<le> n\<close>, a run that returns has a predict feature bucket for every window:
  exactly \<open>n - b\<close> keys, each with an entry that holds as many rows as carry the label
  \<open>end\<close> (an empty entry when none does); the keys of the predict target buckets are
  among them, so only predict target buckets can be missing.
\<close>

theorem predict_feature_always_stored:
  fixes G :: "('d::linorder) list"
  assumes run: "batch_processing fp X Y G L b R pre post = Inr bk"
    and inc: "sorted_wrt (<) G" and b: "1 \<le> b" and bn: "b \<le> int (length G)"
  shows "map fst (predict_x_buckets bk) = drop (nat b) G \<and>
         length (predict_x_buckets bk) = length G - nat b \<and>
         (\<forall>i. i + nat b < length G \<longrightarrow>
            (\<exists>v. map_of (predict_x_buckets bk) (G ! (i + nat b)) = Some v \<and>
                 length v = length (filter (\<lambda>l. l = G ! (i + nat b)) L) \<and>
                 (G ! (i + nat b) \<notin> set L \<longrightarrow> v = []))) \<and>
         set (map fst (predict_y_buckets bk)) \<subseteq> set (map fst (predict_x_buckets bk))"
proof -
  have d: "distinct G" using inc by (rule strictly_increasing_distinct)
  note px = predict_x_filled [OF run b d, THEN conjunct1]
  note py = predict_y_filled [OF run b d, THEN conjunct1]
  have c2: "length (predict_x_buckets bk) = length G - nat b"
    using arg_cong [OF px, of length] by simp
  have c3: "\<exists>v. map_of (predict_x_buckets bk) (G ! (i + nat b)) = Some v \<and>
                 length v = length (filter (\<lambda>l. l = G ! (i + nat b)) L) \<and>
                 (G ! (i + nat b) \<notin> set L \<longrightarrow> v = [])"
    if i: "i + nat b < length G" for i
  proof -
    have lt: "G ! i < G ! (i + nat b)" using inc b i by (rule window_ends_ordered)
    from predict_x_filled [OF run b d, THEN conjunct2, rule_format, OF i]
    obtain v nx where
      nx: "length nx = length (rows_in (predict_window (G ! i) (G ! (i + nat b))) L L)"
      and v: "v = rows_in (\<lambda>d. d = G ! (i + nat b))
                    (rows_in (predict_window (G ! i) (G ! (i + nat b))) L L) nx"
      and m: "map_of (predict_x_buckets bk) (G ! (i + nat b)) = Some v"
      by blast
    have len: "length v = length (filter (\<lambda>l. l = G ! (i + nat b)) L)"
      using end_rows_of_window [OF lt nx] v by simp
    have "v = []" if "G ! (i + nat b) \<notin> set L"
    proof -
      from that have "filter (\<lambda>l. l = G ! (i + nat b)) L = []"
        by (auto simp: filter_empty_conv)
      with len show ?thesis by simp
    qed
    with m len show ?thesis by blast
  qed
  have "set (map (\<lambda>i. G ! (i + nat b))
          (filter (\<lambda>i. rows_in (predict_window (G ! i) (G ! (i + nat b))) L Y \<noteq> [])
             [0..<length G - nat b]))
        \<subseteq> set (map (\<lambda>i. G ! (i + nat b)) [0..<length G - nat b])"
    by auto
  then have c4: "set (map fst (predict_y_buckets bk)) \<subseteq> set (map fst (predict_x_buckets bk))"
    unfolding py px ends_of_windows .
  from px c2 c3 c4 show ?thesis by blast
qed

theorem predict_feature_always_stored_witness:
  "batch_processing raw_processing [[1::int]] [[10]] [1, 3::nat] [0] 1
     (None :: int list list option) () ()
   = Inr \<lparr>train_x_buckets = [(3, [])], train_y_buckets = [(3, [])],
          predict_x_buckets = [(3, [])], predict_y_buckets = []\<rparr> \<and>
   sorted_wrt (<) [1, 3::nat] \<and> (1::int) \<le> 1 \<and> (1::int) \<le> int (length [1, 3::nat]) \<and>
   map fst [(3::nat, ([] :: int list list))] = drop (nat 1) [1, 3] \<and>
   length [(3::nat, ([] :: int list list))] = length [1, 3::nat] - nat 1 \<and>
   3 \<notin> set [0::nat] \<and>
   map_of [(3::nat, ([] :: int list list))] 3 = Some [] \<and>
   set (map fst ([] :: (nat \<times> int list list) list)) \<subseteq> set (map fst [(3::nat, ([] :: int list list))])"
proof -
  have run: "batch_processing raw_processing [[1::int]] [[10]] [1, 3::nat] [0] 1
     (None :: int list list option) () ()
   = Inr \<lparr>train_x_buckets = [(3, [])], train_y_buckets = [(3, [])],
          predict_x_buckets = [(3, [])], predict_y_buckets = []\<rparr>"
    by code_simp
  have inc: "sorted_wrt (<) [1, 3::nat]" by simp
  have b: "(1::int) \<le> 1" by simp
  have bn: "(1::int) \<le> int (length [1, 3::nat])" by simp
  from predict_feature_always_stored [OF run inc b bn] run show ?thesis by simp
qed

section \<open>Properties of the assembly and of the orchestration\<close>

lemma and_then_Inl_left: "and_then (Inl e) f = Inl e"
  by (simp add: and_then_def)

lemma select_Inr:
  assumes "select df names = Inr f"
  shows "columns f = filter (\<lambda>n. n \<notin> set key_columns) names"
    and "rows f = map (\<lambda>r. (fst r, map (\<lambda>n. (n, cell r n))
                                 (filter (\<lambda>n. n \<notin> set key_columns) names))) (rows df)"
    and "\<forall>n\<in>set names. has_column df n"
proof -
  from assms have e: "filter (\<lambda>n. \<not> has_column df n) names = []"
    by (auto simp: select_def split: list.splits)
  with assms show "columns f = filter (\<lambda>n. n \<notin> set key_columns) names"
    and "rows f = map (\<lambda>r. (fst r, map (\<lambda>n. (n, cell r n))
                                 (filter (\<lambda>n. n \<notin> set key_columns) names))) (rows df)"
    by (auto simp: select_def Let_def)
  from e show "\<forall>n\<in>set names. has_column df n"
    by (auto simp: filter_empty_conv)
qed

lemma values_of_columns:
  "\<forall>n\<in>set names. has_column df n \<Longrightarrow>
   values_of df names = Inr (map (\<lambda>r. map (cell r) names) (rows df))"
proof -
  assume "\<forall>n\<in>set names. has_column df n"
  then have "filter (\<lambda>n. \<not> has_column df n) names = []"
    by (auto simp: filter_empty_conv)
  then show ?thesis by (simp add: values_of_def)
qed

lemma prepare_data_columns:
  assumes "prepare_data lib engine (Inl t) sd ed fr u bm ws = Inr (dates, rdf, fdf)"
  shows "columns rdf = [''dx'']"
    and "columns fdf = [''weight'', ''isOpen'', ''industry_code'', ''industry'']
                        @ filter (\<lambda>n. n \<notin> set key_columns) t"
proof -
  from assms obtain df where
    r: "select df [''trade_date'', ''code'', ''dx''] = Inr rdf" and
    f: "select df ([''trade_date'', ''code'', ''weight'', ''isOpen'', ''industry_code'',
                    ''industry''] @ t) = Inr fdf"
    unfolding prepare_data_def Let_def and_then_Inr by auto
  from select_Inr(1) [OF r] show "columns rdf = [''dx'']"
    by (simp add: key_columns_def)
  from select_Inr(1) [OF f]
  show "columns fdf = [''weight'', ''isOpen'', ''industry_code'', ''industry'']
                        @ filter (\<lambda>n. n \<notin> set key_columns) t"
    by (simp add: key_columns_def)
qed

text \<open>
  C9. With \<open>neutralized_risk = None\<close>, \<open>fetch_data_package\<close> never returns a data
  package; when the data is assembled and its features convert to numbers, the error is
  the \<^verbatim>\<open>TypeError\<close> of iterating over \<open>None\<close>.
\<close>

theorem no_risk_model_never_returns:
  "(\<forall>pkg. fetch_data_package lib engine af sd ed fr u bm ws batch None rm pre post \<noteq> Inr pkg) \<and>
   (\<forall>t dates rdf fdf xv.
      Transformer lib af = Inr t \<and>
      prepare_data lib engine (Inl t) sd ed fr u bm ws = Inr (dates, rdf, fdf) \<and>
      and_then (values_of fdf t) astype_float = Inr xv \<longrightarrow>
      fetch_data_package lib engine af sd ed fr u bm ws batch None rm pre post = Inl TypeError)"
proof (intro conjI allI impI)
  fix pkg
  show "fetch_data_package lib engine af sd ed fr u bm ws batch None rm pre post \<noteq> Inr pkg"
    by (auto simp: fetch_data_package_def Let_def and_then_Inr split: prod.splits)
next
  fix t dates rdf fdf xv
  assume a: "Transformer lib af = Inr t \<and>
      prepare_data lib engine (Inl t) sd ed fr u bm ws = Inr (dates, rdf, fdf) \<and>
      and_then (values_of fdf t) astype_float = Inr xv"
  then have t: "Transformer lib af = Inr t"
    and p: "prepare_data lib engine (Inl t) sd ed fr u bm ws = Inr (dates, rdf, fdf)"
    and x: "and_then (values_of fdf t) astype_float = Inr xv"
    by simp_all
  note c = prepare_data_columns [OF p]
  have y: "values_of rdf [''dx''] = Inr (map (\<lambda>r. map (cell r) [''dx'']) (rows rdf))"
    by (rule values_of_columns) (simp add: has_column_def c)
  have s: "series fdf ''weight'' = Inr (map (\<lambda>r. cell r ''weight'') (rows fdf))"
    "series fdf ''industry'' = Inr (map (\<lambda>r. cell r ''industry'') (rows fdf))"
    "series fdf ''industry_code'' = Inr (map (\<lambda>r. cell r ''industry_code'') (rows fdf))"
    "series fdf ''isOpen'' = Inr (map (\<lambda>r. cell r ''isOpen'') (rows fdf))"
    by (simp_all add: series_def has_column_def c)
  show "fetch_data_package lib engine af sd ed fr u bm ws batch None rm pre post = Inl TypeError"
    unfolding fetch_data_package_def
    by (simp add: t p x y s and_then_Inr_left and_then_Inl_left Let_def)
qed

theorem no_risk_model_never_returns_witness:
  "Transformer example_library [''EPS''] = Inr [''EPS''] \<and>
   prepare_data example_library example_engine (Inl [''EPS'']) ''2012-01-01'' ''2012-04-01''
     ''1m'' () 905 0
   = Inr ([1, 2],
          \<lparr>columns = [''dx''],
            rows = [((1, 10), [(''dx'', Num 7)]), ((2, 10), [(''dx'', Num 9)])]\<rparr>,
          \<lparr>columns = [''weight'', ''isOpen'', ''industry_code'', ''industry'', ''EPS''],
            rows = [((1, 10), [(''weight'', Num 1), (''isOpen'', Flag True),
                               (''industry_code'', Num 1), (''industry'', Str ''bank''),
                               (''EPS'', Num 1)]),
                    ((2, 10), [(''weight'', Num 0), (''isOpen'', Flag True),
                               (''industry_code'', Num 1), (''industry'', Str ''bank''),
                               (''EPS'', Num 3)])]\<rparr>) \<and>
   fetch_data_package example_library example_engine [''EPS''] ''2012-01-01'' ''2012-04-01''
     ''1m'' () 905 0 1 None ''short'' () () = Inl TypeError"
proof -
  have t: "Transformer example_library [''EPS''] = Inr [''EPS'']"
    by (simp add: example_library_def)
  have p: "prepare_data example_library example_engine (Inl [''EPS'']) ''2012-01-01''
     ''2012-04-01'' ''1m'' () 905 0
   = Inr ([1, 2],
          \<lparr>columns = [''dx''],
            rows = [((1, 10), [(''dx'', Num 7)]), ((2, 10), [(''dx'', Num 9)])]\<rparr>,
          \<lparr>columns = [''weight'', ''isOpen'', ''industry_code'', ''industry'', ''EPS''],
            rows = [((1, 10), [(''weight'', Num 1), (''isOpen'', Flag True),
                               (''industry_code'', Num 1), (''industry'', Str ''bank''),
                               (''EPS'', Num 1)]),
                    ((2, 10), [(''weight'', Num 0), (''isOpen'', Flag True),
                               (''industry_code'', Num 1), (''industry'', Str ''bank''),
                               (''EPS'', Num 3)])]\<rparr>)"
    by code_simp
  have x: "and_then (values_of
          \<lparr>columns = [''weight'', ''isOpen'', ''industry_code'', ''industry'', ''EPS''],
            rows = [((1, 10), [(''weight'', Num 1), (''isOpen'', Flag True),
                               (''industry_code'', Num 1), (''industry'', Str ''bank''),
                               (''EPS'', Num 1)]),
                    ((2, 10), [(''weight'', Num 0), (''isOpen'', Flag True),
                               (''industry_code'', Num 1), (''industry'', Str ''bank''),
                               (''EPS'', Num 3)])]\<rparr> [''EPS'']) astype_float
      = Inr [[Num 1], [Num 3]]"
    by code_simp
  from no_risk_model_never_returns [THEN conjunct2, rule_format, OF conjI [OF t conjI [OF p x]]]
    t p
  show ?thesis by simp
qed

lemma merge_rows_Inner:
  assumes "r \<in> set (rows (merge left right Inner))"
  shows "\<exists>l m. (fst r, l) \<in> set (rows left) \<and> (fst r, m) \<in> set (rows right) \<and>
           snd r = map (apfst (left_name right)) l @ map (apfst (right_name left)) m"
proof -
  from assms obtain k l m where "(k, l) \<in> set (rows left)" "(k, m) \<in> set (rows right)"
    "r = (k, map (apfst (left_name right)) l @ map (apfst (right_name left)) m)"
    by (auto simp: merge_def Let_def)
  then show ?thesis by auto
qed

lemma merge_rows_Left:
  assumes "r \<in> set (rows (merge left right Left))"
  shows "\<exists>l. (fst r, l) \<in> set (rows left) \<and>
           ((\<exists>m. (fst r, m) \<in> set (rows right) \<and>
              snd r = map (apfst (left_name right)) l @ map (apfst (right_name left)) m) \<or>
            (fst r \<notin> fst ` set (rows right) \<and>
              snd r = map (apfst (left_name right)) l
                    @ map (\<lambda>c. (right_name left c, NaN)) (columns right)))"
proof -
  from assms obtain k l where kl: "(k, l) \<in> set (rows left)"
    and r: "r \<in> set (let matches = filter (\<lambda>(k', r). k' = k) (rows right) in
               if matches = [] \<and> Left = Left
               then [(k, map (apfst (left_name right)) l
                         @ map (\<lambda>c. (right_name left c, NaN)) (columns right))]
               else map (\<lambda>(k', r). (k, map (apfst (left_name right)) l
                                        @ map (apfst (right_name left)) r)) matches)"
    by (auto simp: merge_def)
  show ?thesis
  proof (cases "filter (\<lambda>(k', r). k' = k) (rows right) = []")
    case True
    with r have req: "r = (k, map (apfst (left_name right)) l
                         @ map (\<lambda>c. (right_name left c, NaN)) (columns right))"
      by simp
    from True have "k \<notin> fst ` set (rows right)"
      by (auto simp: filter_empty_conv)
    with req kl show ?thesis by auto
  next
    case False
    with r obtain k' m where "(k', m) \<in> set (rows right)" "k' = k"
      and "r = (k, map (apfst (left_name right)) l @ map (apfst (right_name left)) m)"
      by (auto simp: Let_def)
    with kl show ?thesis by auto
  qed
qed

lemma merge_columns:
  "columns (merge left right how) =
     map (left_name right) (columns left) @ map (right_name left) (columns right)"
  by (simp add: merge_def)

lemma dropna_rows: "set (rows (dropna df)) \<subseteq> set (rows df)"
  by (auto simp: dropna_def)

lemma dropna_columns: "columns (dropna df) = columns df"
  by (simp add: dropna_def)

lemma sort_values_rows: "set (rows (sort_values df)) = set (rows df)"
  by (simp add: sort_values_def)

lemma sort_values_columns: "columns (sort_values df) = columns df"
  by (simp add: sort_values_def)

lemma fillna_Inr:
  assumes "fillna df name v = Inr df'"
  shows "rows df' = map (\<lambda>r. (fst r, AList.update name
                                  (if cell r name = NaN then v else cell r name) (snd r)))
                      (rows df)"
proof -
  from assms have
    "df' = assign df name (map (\<lambda>c. if c = NaN then v else c) (map (\<lambda>r. cell r name) (rows df)))"
    by (auto simp: fillna_def series_def and_then_Inr split: if_splits)
  then show ?thesis
    by (simp add: assign_def zip_map2 zip_same_conv_map comp_def)
qed


lemma weight_not_suffixed: "c @ ''_x'' \<noteq> ''weight''" "c @ ''_y'' \<noteq> ''weight''"
proof -
  have "last (c @ ''_x'') \<noteq> last ''weight''" and "last (c @ ''_y'') \<noteq> last ''weight''"
    by simp_all
  then show "c @ ''_x'' \<noteq> ''weight''" and "c @ ''_y'' \<noteq> ''weight''"
    by metis+
qed

lemma left_name_weight:
  "left_name fr c = ''weight'' \<longleftrightarrow> c = ''weight'' \<and> ''weight'' \<notin> set (columns fr)"
  "''weight'' = left_name fr c \<longleftrightarrow> c = ''weight'' \<and> ''weight'' \<notin> set (columns fr)"
  using weight_not_suffixed(1) [of c] by (auto simp: left_name_def)

lemma right_name_weight:
  "right_name fr c = ''weight'' \<longleftrightarrow> c = ''weight'' \<and> ''weight'' \<notin> set (columns fr)"
  "''weight'' = right_name fr c \<longleftrightarrow> c = ''weight'' \<and> ''weight'' \<notin> set (columns fr)"
  using weight_not_suffixed(2) [of c] by (auto simp: right_name_def)

lemma map_of_renamed:
  assumes "\<And>c. f c = a \<longleftrightarrow> c = a"
  shows "map_of (map (apfst f) xs) a = map_of xs a"
proof -
  have s: "a = f c \<longleftrightarrow> a = c" for c using assms [of c] by auto
  show ?thesis by (induction xs) (auto simp: s)
qed

lemma map_of_renamed_None:
  assumes "\<And>c. c \<in> fst ` set xs \<Longrightarrow> f c \<noteq> a"
  shows "map_of (map (apfst f) xs) a = None"
proof -
  have "a \<notin> fst ` set (map (apfst f) xs)" using assms by force
  then show ?thesis by (simp add: map_of_eq_None_iff)
qed

lemma map_of_constant:
  "map_of (map (\<lambda>c. (g c, v)) cols) a = (if a \<in> g ` set cols then Some v else None)"
  by (induction cols) auto

lemma merge_columns_weight:
  "''weight'' \<in> set (columns (merge left right how)) \<longleftrightarrow>
     (''weight'' \<in> set (columns left)) \<noteq> (''weight'' \<in> set (columns right))"
  by (auto simp: merge_columns left_name_weight right_name_weight image_iff)

lemma names_renamed: "map fst (map (apfst f) l) = map f (map fst l)"
  by (induction l) auto

text \<open>The names of a row, in a merge of well-formed frames.\<close>

lemma merge_well_formed:
  assumes "well_formed left" and "well_formed right"
  shows "well_formed (merge left right how)"
proof -
  have l: "map fst l = columns left" if "(k, l) \<in> set (rows left)" for k l
    using assms(1) that by (auto simp: well_formed_def list_all_iff)
  have r: "map fst m = columns right" if "(k, m) \<in> set (rows right)" for k m
    using assms(2) that by (auto simp: well_formed_def list_all_iff)
  have matched: "map fst (snd x) = columns (merge left right how)"
    if lm: "(fst x, l) \<in> set (rows left)" and rm: "(fst x, m) \<in> set (rows right)"
      and x: "snd x = map (apfst (left_name right)) l @ map (apfst (right_name left)) m"
    for x l m
  proof -
    have "map fst (snd x) = map (left_name right) (map fst l) @ map (right_name left) (map fst m)"
      unfolding x by (simp add: comp_def)
    then show ?thesis by (simp only: l [OF lm] r [OF rm] merge_columns)
  qed
  have unmatched: "map fst (snd x) = columns (merge left right how)"
    if lm: "(fst x, l) \<in> set (rows left)"
      and x: "snd x = map (apfst (left_name right)) l
                    @ map (\<lambda>c. (right_name left c, NaN)) (columns right)"
    for x l
  proof -
    have "map fst (snd x) = map (left_name right) (map fst l) @ map (right_name left) (columns right)"
      unfolding x by (simp add: comp_def)
    then show ?thesis by (simp only: l [OF lm] merge_columns)
  qed
  have "map fst (snd x) = columns (merge left right how)"
    if x: "x \<in> set (rows (merge left right how))" for x
  proof (cases how)
    case Inner
    with merge_rows_Inner [of x left right] x show ?thesis using matched by blast
  next
    case Left
    with merge_rows_Left [of x left right] x show ?thesis using matched unmatched by blast
  qed
  then show ?thesis by (auto simp: well_formed_def list_all_iff)
qed

lemma dropna_well_formed: "well_formed df \<Longrightarrow> well_formed (dropna df)"
  by (auto simp: well_formed_def dropna_def list_all_iff)

lemma sort_values_well_formed: "well_formed df \<Longrightarrow> well_formed (sort_values df)"
  by (auto simp: well_formed_def sort_values_def list_all_iff)

lemma well_formed_names:
  "well_formed df \<Longrightarrow> r \<in> set (rows df) \<Longrightarrow> fst ` set (snd r) = set (columns df)"
proof -
  assume "well_formed df" "r \<in> set (rows df)"
  then have "map fst (snd r) = columns df" by (auto simp: well_formed_def list_all_iff)
  then have "set (map fst (snd r)) = set (columns df)" by simp
  then show ?thesis by simp
qed

lemma prepare_data_Inr:
  assumes "prepare_data lib engine factors sd ed fr u bm ws = Inr (dates, target, features)"
  shows "\<exists>t h fdf rdf idf bdf df.
           (case factors of Inl t \<Rightarrow> Inr t | Inr fs \<Rightarrow> Transformer lib fs) = Inr t \<and>
           map_horizon fr = Inr h \<and>
           fetch_factor_range engine u t dates = Inr fdf \<and>
           fetch_dx_return_range engine u dates h = Inr rdf \<and>
           fetch_industry_range engine u dates = Inr idf \<and>
           fetch_benchmark_range engine bm dates = Inr bdf \<and>
           fillna (merge (merge (dropna (merge (sort_values fdf) rdf Inner)) bdf Left) idf Inner)
             ''weight'' (Num 0) = Inr df \<and>
           select df [''trade_date'', ''code'', ''dx''] = Inr target \<and>
           select df ([''trade_date'', ''code'', ''weight'', ''isOpen'', ''industry_code'',
                       ''industry''] @ t) = Inr features"
  using assms unfolding prepare_data_def Let_def and_then_Inr by auto

lemma cell_weight: "cell r ''weight'' = (case map_of (snd r) ''weight'' of Some v \<Rightarrow> v | None \<Rightarrow> NaN)"
  by (simp add: cell_def)

lemma cell_selected:
  assumes "''weight'' \<in> set others"
  shows "cell (k, map (\<lambda>n. (n, cell r n)) others) ''weight'' = cell r ''weight''"
proof -
  have "map_of (map (\<lambda>n. (n, cell r n)) others) ''weight'' = Some (cell r ''weight'')"
    using assms by (induction others) auto
  then show ?thesis by (simp add: cell_weight)
qed

lemma cell_updated: "cell (k, AList.update ''weight'' v al) ''weight'' = v"
  by (simp add: cell_weight update_conv')


lemma fillna_has_column: "fillna df name v = Inr df' \<Longrightarrow> has_column df name"
  by (auto simp: fillna_def series_def and_then_Inr split: if_splits)

lemma assembled_keys:
  assumes fill: "fillna (merge (merge (dropna (merge F rdf Inner)) bdf Left) idf Inner)
                   name v = Inr df4"
    and sel: "select df4 names = Inr out"
    and row: "row \<in> set (rows out)"
  shows "fst row \<in> fst ` set (rows F) \<and> fst row \<in> fst ` set (rows rdf)"
proof -
  let ?df1 = "dropna (merge F rdf Inner)"
  let ?df2 = "merge ?df1 bdf Left"
  let ?df3 = "merge ?df2 idf Inner"
  from row select_Inr(2) [OF sel] obtain r4 where r4: "r4 \<in> set (rows df4)" "fst row = fst r4"
    by auto
  from r4 fillna_Inr [OF fill] obtain r3 where r3: "r3 \<in> set (rows ?df3)" "fst r4 = fst r3"
    by auto
  from merge_rows_Inner [OF r3(1)] obtain l2 where l2: "(fst r3, l2) \<in> set (rows ?df2)"
    by blast
  from merge_rows_Left [OF l2] obtain l1 where "(fst r3, l1) \<in> set (rows ?df1)"
    by auto
  then have "(fst r3, l1) \<in> set (rows (merge F rdf Inner))"
    using dropna_rows by blast
  from merge_rows_Inner [OF this] obtain l m where
    "(fst r3, l) \<in> set (rows F)" "(fst r3, m) \<in> set (rows rdf)"
    by auto
  then have "fst (fst r3, l) \<in> fst ` set (rows F)" "fst (fst r3, m) \<in> fst ` set (rows rdf)"
    by (blast intro: imageI)+
  with r4(2) r3(2) show ?thesis by simp
qed

lemma assembled_weight:
  assumes fill: "fillna (merge (merge (dropna (merge F rdf Inner)) bdf Left) idf Inner)
                   ''weight'' (Num 0) = Inr df4"
    and sel: "select df4 names = Inr out"
    and w: "''weight'' \<in> set names"
    and wf: "well_formed F" "well_formed rdf"
    and cols: "''weight'' \<in> set (columns bdf)" "''weight'' \<notin> set (columns idf)"
    and row: "row \<in> set (rows out)"
  shows "cell row ''weight'' \<noteq> NaN \<and>
         (fst row \<notin> fst ` set (rows bdf) \<longrightarrow> cell row ''weight'' = Num 0)"
proof -
  let ?df1 = "dropna (merge F rdf Inner)"
  let ?df2 = "merge ?df1 bdf Left"
  let ?df3 = "merge ?df2 idf Inner"
  have wf1: "well_formed ?df1"
    by (intro dropna_well_formed merge_well_formed wf)
  have "has_column ?df3 ''weight''" by (rule fillna_has_column [OF fill])
  then have w3: "''weight'' \<in> set (columns ?df3)"
    by (simp add: has_column_def key_columns_def)
  then have w2: "''weight'' \<in> set (columns ?df2)"
    using cols(2) by (simp add: merge_columns_weight)
  then have w1: "''weight'' \<notin> set (columns ?df1)"
    using cols(1) by (simp add: merge_columns_weight)
  have others: "''weight'' \<in> set (filter (\<lambda>n. n \<notin> set key_columns) names)"
    using w by (simp add: key_columns_def)
  from row select_Inr(2) [OF sel] obtain r4 where
    r4: "r4 \<in> set (rows df4)"
    and row4: "row = (fst r4, map (\<lambda>n. (n, cell r4 n)) (filter (\<lambda>n. n \<notin> set key_columns) names))"
    by auto
  from r4 fillna_Inr [OF fill] obtain r3 where
    r3: "r3 \<in> set (rows ?df3)"
    and r43: "r4 = (fst r3, AList.update ''weight''
                      (if cell r3 ''weight'' = NaN then Num 0 else cell r3 ''weight'') (snd r3))"
    by auto
  have c: "cell row ''weight'' = (if cell r3 ''weight'' = NaN then Num 0 else cell r3 ''weight'')"
    unfolding row4 cell_selected [OF others] unfolding r43 cell_updated ..
  have k: "fst row = fst r3" using row4 r43 by simp
  have absent: "cell r3 ''weight'' = NaN" if nb: "fst r3 \<notin> fst ` set (rows bdf)"
  proof -
    from merge_rows_Inner [OF r3] obtain l2 m where
      l2: "(fst r3, l2) \<in> set (rows ?df2)"
      and s3: "snd r3 = map (apfst (left_name idf)) l2 @ map (apfst (right_name ?df2)) m"
      by blast
    from merge_rows_Left [OF l2] obtain l1 where
      l1: "(fst r3, l1) \<in> set (rows ?df1)"
      and d: "(\<exists>m. (fst r3, m) \<in> set (rows bdf) \<and>
                 l2 = map (apfst (left_name bdf)) l1 @ map (apfst (right_name ?df1)) m) \<or>
              (fst r3 \<notin> fst ` set (rows bdf) \<and>
                 l2 = map (apfst (left_name bdf)) l1
                    @ map (\<lambda>c. (right_name ?df1 c, NaN)) (columns bdf))"
      by auto
    have "\<not> (\<exists>m. (fst r3, m) \<in> set (rows bdf))"
    proof
      assume "\<exists>m. (fst r3, m) \<in> set (rows bdf)"
      then obtain m where "(fst r3, m) \<in> set (rows bdf)" ..
      then have "fst (fst r3, m) \<in> fst ` set (rows bdf)" by (rule imageI)
      with nb show False by simp
    qed
    with d have s2: "l2 = map (apfst (left_name bdf)) l1
                    @ map (\<lambda>c. (right_name ?df1 c, NaN)) (columns bdf)"
      by blast
    have n1: "fst ` set l1 = set (columns ?df1)"
      using well_formed_names [OF wf1 l1] by simp
    have "map_of (map (apfst (left_name bdf)) l1) ''weight'' = None"
    proof (rule map_of_renamed_None)
      fix c assume "c \<in> fst ` set l1"
      with n1 w1 have "c \<noteq> ''weight''" by auto
      then show "left_name bdf c \<noteq> ''weight''" by (simp add: left_name_weight)
    qed
    moreover have "map_of (map (\<lambda>c. (right_name ?df1 c, NaN)) (columns bdf)) ''weight'' = Some NaN"
    proof -
      have "right_name ?df1 ''weight'' = ''weight''"
        using w1 by (simp add: right_name_weight)
      with cols(1) have "''weight'' \<in> right_name ?df1 ` set (columns bdf)"
        by (metis image_eqI)
      then show ?thesis by (simp add: map_of_constant)
    qed
    ultimately have m2: "map_of l2 ''weight'' = Some NaN"
      unfolding s2 by (simp add: map_add_def)
    have "map_of (map (apfst (left_name idf)) l2) ''weight'' = map_of l2 ''weight''"
      by (rule map_of_renamed) (use cols(2) in \<open>auto simp: left_name_weight\<close>)
    with m2 have "map_of (snd r3) ''weight'' = Some NaN"
      unfolding s3 by (simp add: map_add_def)
    then show ?thesis by (simp add: cell_weight)
  qed
  from c k absent show ?thesis by auto
qed


text \<open>
  C7. In the output of the panel assembly, a (date, instrument) key that the
  forward-return panel does not have (whether the factor panel has it or not) is in
  neither output frame; and every row of the feature frame has a weight that is not
  missing, which is exactly 0 when the benchmark-weight panel does not have the row's
  key. The factor and return panels are well formed, the benchmark panel has the column
  \<^verbatim>\<open>weight\<close> and the industry panel has not.
\<close>

theorem panel_assembly_rows:
  assumes run: "prepare_data lib engine factors sd ed fr u bm ws = Inr (dates, target, features)"
    and t: "(case factors of Inl t \<Rightarrow> Inr t | Inr fs \<Rightarrow> Transformer lib fs) = Inr t"
    and h: "map_horizon fr = Inr h"
    and f: "fetch_factor_range engine u t dates = Inr factor_df"
    and r: "fetch_dx_return_range engine u dates h = Inr return_df"
    and i: "fetch_industry_range engine u dates = Inr industry_df"
    and b: "fetch_benchmark_range engine bm dates = Inr benchmark_df"
    and wf: "well_formed factor_df" "well_formed return_df"
    and cols: "''weight'' \<in> set (columns benchmark_df)" "''weight'' \<notin> set (columns industry_df)"
  shows "(\<forall>k. k \<notin> fst ` set (rows return_df) \<longrightarrow>
              k \<notin> fst ` set (rows target) \<and> k \<notin> fst ` set (rows features)) \<and>
         (\<forall>row\<in>set (rows features).
              cell row ''weight'' \<noteq> NaN \<and>
              (fst row \<notin> fst ` set (rows benchmark_df) \<longrightarrow> cell row ''weight'' = Num 0))"
proof -
  from prepare_data_Inr [OF run] t h f r i b obtain df where
    fill: "fillna (merge (merge (dropna (merge (sort_values factor_df) return_df Inner))
                     benchmark_df Left) industry_df Inner) ''weight'' (Num 0) = Inr df"
    and st: "select df [''trade_date'', ''code'', ''dx''] = Inr target"
    and sf: "select df ([''trade_date'', ''code'', ''weight'', ''isOpen'', ''industry_code'',
                         ''industry''] @ t) = Inr features"
    by auto
  have keys_t: "fst row \<in> fst ` set (rows return_df)" if "row \<in> set (rows target)" for row
    using assembled_keys [OF fill st that] by simp
  have keys_f: "fst row \<in> fst ` set (rows return_df)" if "row \<in> set (rows features)" for row
    using assembled_keys [OF fill sf that] by simp
  have c1: "k \<notin> fst ` set (rows target) \<and> k \<notin> fst ` set (rows features)"
    if "k \<notin> fst ` set (rows return_df)" for k
    using that keys_t keys_f by auto
  have w: "''weight'' \<in> set ([''trade_date'', ''code'', ''weight'', ''isOpen'', ''industry_code'',
                         ''industry''] @ t)"
    by simp
  have c2: "cell row ''weight'' \<noteq> NaN \<and>
              (fst row \<notin> fst ` set (rows benchmark_df) \<longrightarrow> cell row ''weight'' = Num 0)"
    if "row \<in> set (rows features)" for row
    by (rule assembled_weight [OF fill sf w sort_values_well_formed [OF wf(1)] wf(2) cols that])
  from c1 c2 show ?thesis by blast
qed

theorem panel_assembly_rows_witness:
  "prepare_data example_library example_engine (Inl [''EPS'']) ''2012-01-01'' ''2012-04-01''
     ''1m'' () 905 0
   = Inr ([1, 2],
          \<lparr>columns = [''dx''],
            rows = [((1, 10), [(''dx'', Num 7)]), ((2, 10), [(''dx'', Num 9)])]\<rparr>,
          \<lparr>columns = [''weight'', ''isOpen'', ''industry_code'', ''industry'', ''EPS''],
            rows = [((1, 10), [(''weight'', Num 1), (''isOpen'', Flag True),
                               (''industry_code'', Num 1), (''industry'', Str ''bank''),
                               (''EPS'', Num 1)]),
                    ((2, 10), [(''weight'', Num 0), (''isOpen'', Flag True),
                               (''industry_code'', Num 1), (''industry'', Str ''bank''),
                               (''EPS'', Num 3)])]\<rparr>) \<and>
   well_formed example_factor_df \<and> well_formed example_return_df \<and>
   ''weight'' \<in> set (columns example_benchmark_df) \<and>
   ''weight'' \<notin> set (columns example_industry_df) \<and>
   (1, 11) \<in> fst ` set (rows example_factor_df) \<and>
   (1, 11) \<notin> fst ` set (rows example_return_df) \<and>
   (1, 11) \<notin> fst ` set [((1::int, 10::int), [(''dx'', Num 7)]), ((2, 10), [(''dx'', Num 9)])] \<and>
   (2, 10) \<notin> fst ` set (rows example_benchmark_df) \<and>
   cell ((2, 10), [(''weight'', Num 0), (''isOpen'', Flag True), (''industry_code'', Num 1),
                   (''industry'', Str ''bank''), (''EPS'', Num 3)]) ''weight'' = Num 0"
proof -
  have run: "prepare_data example_library example_engine (Inl [''EPS'']) ''2012-01-01''
     ''2012-04-01'' ''1m'' () 905 0
   = Inr ([1, 2],
          \<lparr>columns = [''dx''],
            rows = [((1, 10), [(''dx'', Num 7)]), ((2, 10), [(''dx'', Num 9)])]\<rparr>,
          \<lparr>columns = [''weight'', ''isOpen'', ''industry_code'', ''industry'', ''EPS''],
            rows = [((1, 10), [(''weight'', Num 1), (''isOpen'', Flag True),
                               (''industry_code'', Num 1), (''industry'', Str ''bank''),
                               (''EPS'', Num 1)]),
                    ((2, 10), [(''weight'', Num 0), (''isOpen'', Flag True),
                               (''industry_code'', Num 1), (''industry'', Str ''bank''),
                               (''EPS'', Num 3)])]\<rparr>)"
    by code_simp
  have t: "(case Inl [''EPS''] of Inl t \<Rightarrow> Inr t | Inr fs \<Rightarrow> Transformer example_library fs)
             = Inr [''EPS'']"
    by simp
  have h: "map_horizon ''1m'' = Inr 21" by code_simp
  have f: "fetch_factor_range example_engine () [''EPS''] [1, 2] = Inr example_factor_df"
    and r: "fetch_dx_return_range example_engine () [1, 2] 21 = Inr example_return_df"
    and i: "fetch_industry_range example_engine () [1, 2] = Inr example_industry_df"
    and b: "fetch_benchmark_range example_engine 905 [1, 2] = Inr example_benchmark_df"
    by (simp_all add: example_engine_def)
  have wf: "well_formed example_factor_df" "well_formed example_return_df"
    by (simp_all add: well_formed_def example_factor_df_def example_return_df_def)
  have cols: "''weight'' \<in> set (columns example_benchmark_df)"
    "''weight'' \<notin> set (columns example_industry_df)"
    by (simp_all add: example_benchmark_df_def example_industry_df_def)
  have k: "(1, 11) \<in> fst ` set (rows example_factor_df)"
    "(1, 11) \<notin> fst ` set (rows example_return_df)"
    "(2, 10) \<notin> fst ` set (rows example_benchmark_df)"
    by (simp_all add: example_factor_df_def example_return_df_def example_benchmark_df_def)
  from panel_assembly_rows [OF run t h f r i b wf cols] run wf cols k
  show ?thesis by simp
qed

lemma prepare_data_frequency_error:
  assumes "(if ws > 0 then advanceDateByCalendar lib ''china.sse'' sd (str_int (- ws) @ ''b'')
            else Inr sd) = Inr sd'"
    and "makeSchedule lib sd' ed f = Inr dates"
    and "map_horizon f = Inl e"
  shows "prepare_data lib engine factors sd ed f u bm ws = Inl e"
  unfolding prepare_data_def assms and_then_Inr_left and_then_Inl_left ..

lemma fetch_data_package_prepare_error:
  assumes "Transformer lib af = Inr t"
    and "prepare_data lib engine (Inl t) sd ed f u bm ws = Inl e"
  shows "fetch_data_package lib engine af sd ed f u bm ws batch nr rm pre post = Inl e"
  unfolding fetch_data_package_def assms and_then_Inr_left and_then_Inl_left ..

lemma map_horizon_refused: "Period f = Inl e \<Longrightarrow> map_horizon f = Inl e"
  by (simp add: map_horizon_def)

text \<open>
  C6. For every frequency string: \<open>map_horizon\<close> returns an integer exactly when the
  string parses to business days, calendar days, weeks or months, and fails otherwise. A
  string that parses to another unit fails with the \<^verbatim>\<open>ValueError\<close> of an unrecognized
  frequency rule; a string that the period parser refuses fails with the error of the
  parser. Nothing catches the failure: once the schedule is made, \<open>prepare_data\<close> and
  \<open>fetch_data_package\<close> fail with the same error.
\<close>

theorem map_horizon_unrecognized:
  "((\<exists>h. map_horizon f = Inr h) \<longleftrightarrow>
      (\<exists>p. Period f = Inr p \<and> p_units p \<in> {BDays, Days, Weeks, Months})) \<and>
   ((\<exists>e. map_horizon f = Inl e) \<longleftrightarrow>
      \<not> (\<exists>p. Period f = Inr p \<and> p_units p \<in> {BDays, Days, Weeks, Months})) \<and>
   (\<forall>p. Period f = Inr p \<and> p_units p \<notin> {BDays, Days, Weeks, Months} \<longrightarrow>
      map_horizon f = Inl (ValueError (f @ '' is an unrecognized frequency rule''))) \<and>
   (\<forall>e. Period f = Inl e \<longrightarrow> map_horizon f = Inl e) \<and>
   (\<forall>e sd' dates t.
      map_horizon f = Inl e \<and>
      (if ws > 0 then advanceDateByCalendar lib ''china.sse'' sd (str_int (- ws) @ ''b'')
       else Inr sd) = Inr sd' \<and>
      makeSchedule lib sd' ed f = Inr dates \<and> Transformer lib af = Inr t \<longrightarrow>
      prepare_data lib engine (Inl t) sd ed f u bm ws = Inl e \<and>
      fetch_data_package lib engine af sd ed f u bm ws batch nr rm pre post = Inl e)"
proof -
  have a: "(\<exists>h. map_horizon f = Inr h) \<longleftrightarrow>
      (\<exists>p. Period f = Inr p \<and> p_units p \<in> {BDays, Days, Weeks, Months})"
  proof (cases "Period f")
    case (Inl e)
    then show ?thesis by (simp add: map_horizon_refused)
  next
    case (Inr p)
    then show ?thesis by (auto simp: map_horizon_parsed)
  qed
  have b: "(\<exists>e. map_horizon f = Inl e) \<longleftrightarrow>
      \<not> (\<exists>p. Period f = Inr p \<and> p_units p \<in> {BDays, Days, Weeks, Months})"
  proof -
    have "(\<exists>e. map_horizon f = Inl e) \<longleftrightarrow> \<not> (\<exists>h. map_horizon f = Inr h)"
      by (cases "map_horizon f") simp_all
    with a show ?thesis by simp
  qed
  have c: "map_horizon f = Inl (ValueError (f @ '' is an unrecognized frequency rule''))"
    if "Period f = Inr p \<and> p_units p \<notin> {BDays, Days, Weeks, Months}" for p
    using that by (auto simp: map_horizon_parsed)
  have d: "map_horizon f = Inl e" if "Period f = Inl e" for e
    using that by (rule map_horizon_refused)
  have s: "prepare_data lib engine (Inl t) sd ed f u bm ws = Inl e \<and>
           fetch_data_package lib engine af sd ed f u bm ws batch nr rm pre post = Inl e"
    if h: "map_horizon f = Inl e \<and>
      (if ws > 0 then advanceDateByCalendar lib ''china.sse'' sd (str_int (- ws) @ ''b'')
       else Inr sd) = Inr sd' \<and>
      makeSchedule lib sd' ed f = Inr dates \<and> Transformer lib af = Inr t"
    for e sd' dates t
  proof -
    from h have m: "map_horizon f = Inl e"
      and st: "(if ws > 0 then advanceDateByCalendar lib ''china.sse'' sd (str_int (- ws) @ ''b'')
                else Inr sd) = Inr sd'"
      and sc: "makeSchedule lib sd' ed f = Inr dates" and t: "Transformer lib af = Inr t"
      by simp_all
    note p = prepare_data_frequency_error [OF st sc m, of engine "Inl t" u bm]
    from p fetch_data_package_prepare_error [OF t p] show ?thesis by simp
  qed
  from a b c d s show ?thesis by blast
qed

theorem map_horizon_unrecognized_witness:
  "Period ''2y'' = Inr \<lparr>p_units = Years, p_length = 2\<rparr> \<and>
   map_horizon ''2y'' = Inl (ValueError ''2y is an unrecognized frequency rule'') \<and>
   prepare_data example_library example_engine (Inl [''EPS'']) ''2012-01-01'' ''2012-04-01''
     ''2y'' () 905 0 = Inl (ValueError ''2y is an unrecognized frequency rule'') \<and>
   fetch_data_package example_library example_engine [''EPS''] ''2012-01-01'' ''2012-04-01''
     ''2y'' () 905 0 1 (Some [''SIZE'']) ''short'' () ()
     = Inl (ValueError ''2y is an unrecognized frequency rule'') \<and>
   Period ''xyz'' = Inl PeriodError \<and> map_horizon ''xyz'' = Inl PeriodError \<and>
   (\<nexists>h. map_horizon ''xyz'' = Inr h) \<and>
   prepare_data example_library example_engine (Inl [''EPS'']) ''2012-01-01'' ''2012-04-01''
     ''xyz'' () 905 0 = Inl PeriodError \<and>
   fetch_data_package example_library example_engine [''EPS''] ''2012-01-01'' ''2012-04-01''
     ''xyz'' () 905 0 1 (Some [''SIZE'']) ''short'' () () = Inl PeriodError \<and>
   Period ''5q'' = Inl PeriodError \<and> map_horizon ''5q'' = Inl PeriodError \<and>
   (\<nexists>h. map_horizon ''5q'' = Inr h) \<and>
   Period ''2d'' = Inr \<lparr>p_units = Days, p_length = 2\<rparr> \<and>
   (\<exists>h. map_horizon ''2d'' = Inr h) \<and> (\<nexists>e. map_horizon ''2d'' = Inl e)"
proof -
  have y: "Period ''2y'' = Inr \<lparr>p_units = Years, p_length = 2\<rparr>" by code_simp
  have x: "Period ''xyz'' = Inl PeriodError" by code_simp
  have q: "Period ''5q'' = Inl PeriodError" by code_simp
  have d: "Period ''2d'' = Inr \<lparr>p_units = Days, p_length = 2\<rparr>" by code_simp
  have s: "(if (0::int) > 0
            then advanceDateByCalendar example_library ''china.sse'' ''2012-01-01''
                   (str_int (- 0) @ ''b'')
            else Inr ''2012-01-01'') = Inr ''2012-01-01''"
    by simp
  have m: "makeSchedule example_library ''2012-01-01'' ''2012-04-01'' fr = Inr [1, 2]" for fr
    by (simp add: example_library_def)
  have t: "Transformer example_library [''EPS''] = Inr [''EPS'']"
    by (simp add: example_library_def)
  note th = map_horizon_unrecognized [where ws = 0 and lib = example_library
      and sd = "''2012-01-01''" and ed = "''2012-04-01''" and af = "[''EPS'']"
      and engine = example_engine and u = "()" and bm = 905
      and batch = 1 and nr = "Some [''SIZE'']" and rm = "''short''" and pre = "()"
      and post = "()"]
  from th [of "''2y''"] th [of "''xyz''"] th [of "''5q''"] th [of "''2d''"] y x q d s m t
  show ?thesis by simp
qed

end
